theory Spec2Isabelle
  imports Main
begin

section \<open>Text: Python's \<open>str\<close> on code points below 256\<close>

text \<open>
  A Python \<open>str\<close> is a sequence of code points. The model keeps the code points
  below 256, one \<^typ>\<open>char\<close> each, and gives every character class the members that
  Python 3 gives it in that range: \<open>str.isspace\<close> (used by \<open>str.strip\<close> and by
  \<open>\s\<close> in \<open>re\<close>), the word characters of \<open>\w\<close> and \<open>\b\<close> (alphanumerics and
  the underscore), and the case mappings of \<open>str.lower\<close> and \<open>str.upper\<close>.
  Code points from 256 on are outside the model.
\<close>

definition whitespace_chars :: "char list" where
  "whitespace_chars =
     [CHR 0x09, CHR 0x0A, CHR 0x0B, CHR 0x0C, CHR 0x0D,
      CHR 0x1C, CHR 0x1D, CHR 0x1E, CHR 0x1F, CHR 0x20, CHR 0x85, CHR 0xA0]"

definition is_space :: "char \<Rightarrow> bool" where
  "is_space c = (c \<in> set whitespace_chars)"

definition is_word :: "char \<Rightarrow> bool" where
  "is_word c =
     (let n = (of_char c :: nat) in
        (48 \<le> n \<and> n \<le> 57) \<or> (65 \<le> n \<and> n \<le> 90) \<or> n = 95 \<or> (97 \<le> n \<and> n \<le> 122)
        \<or> n = 170 \<or> n = 178 \<or> n = 179 \<or> n = 181 \<or> n = 185 \<or> n = 186
        \<or> (188 \<le> n \<and> n \<le> 190) \<or> (192 \<le> n \<and> n \<le> 214)
        \<or> (216 \<le> n \<and> n \<le> 246) \<or> (248 \<le> n \<and> n \<le> 255))"

definition upper_letters :: "char list" where
  "upper_letters =
     ''ABCDEFGHIJKLMNOPQRSTUVWXYZ'' @
     [CHR 0xC0, CHR 0xC1, CHR 0xC2, CHR 0xC3, CHR 0xC4, CHR 0xC5, CHR 0xC6, CHR 0xC7,
      CHR 0xC8, CHR 0xC9, CHR 0xCA, CHR 0xCB, CHR 0xCC, CHR 0xCD, CHR 0xCE, CHR 0xCF,
      CHR 0xD0, CHR 0xD1, CHR 0xD2, CHR 0xD3, CHR 0xD4, CHR 0xD5, CHR 0xD6,
      CHR 0xD8, CHR 0xD9, CHR 0xDA, CHR 0xDB, CHR 0xDC, CHR 0xDD, CHR 0xDE]"

definition lower_letters :: "char list" where
  "lower_letters =
     ''abcdefghijklmnopqrstuvwxyz'' @
     [CHR 0xE0, CHR 0xE1, CHR 0xE2, CHR 0xE3, CHR 0xE4, CHR 0xE5, CHR 0xE6, CHR 0xE7,
      CHR 0xE8, CHR 0xE9, CHR 0xEA, CHR 0xEB, CHR 0xEC, CHR 0xED, CHR 0xEE, CHR 0xEF,
      CHR 0xF0, CHR 0xF1, CHR 0xF2, CHR 0xF3, CHR 0xF4, CHR 0xF5, CHR 0xF6,
      CHR 0xF8, CHR 0xF9, CHR 0xFA, CHR 0xFB, CHR 0xFC, CHR 0xFD, CHR 0xFE]"

text \<open>\<open>str.lower\<close>, one character at a time (it keeps the length in this range).\<close>

definition lower_char :: "char \<Rightarrow> char" where
  "lower_char c = (case map_of (zip upper_letters lower_letters) c of Some l \<Rightarrow> l | None \<Rightarrow> c)"

definition py_lower :: "string \<Rightarrow> string" where
  "py_lower s = map lower_char s"

text \<open>
  \<open>str.upper\<close>. The sharp s (0xDF) becomes the two letters \<open>SS\<close>. The upper-case
  forms of the micro sign (0xB5) and of y with diaeresis (0xFF) are code points above
  255; the model leaves these two characters as they are. Both they and their
  upper-case forms are word characters, are not whitespace and are no letter of
  the patterns below, which is all that the code asks of an upper-cased text.
\<close>

definition upper_char :: "char \<Rightarrow> string" where
  "upper_char c =
     (if c = CHR 0xDF then ''SS''
      else [case map_of (zip lower_letters upper_letters) c of Some u \<Rightarrow> u | None \<Rightarrow> c])"

definition py_upper :: "string \<Rightarrow> string" where
  "py_upper s = concat (map upper_char s)"

text \<open>
  A literal of a pattern compiled with \<open>re.IGNORECASE\<close> matches a character when
  both have the same lower-case form. \<open>ci_prefix p t\<close>: the literal text \<open>p\<close>
  matches at the start of \<open>t\<close>, character by character from the left.
\<close>

definition ci_eq :: "string \<Rightarrow> string \<Rightarrow> bool" where
  "ci_eq a b = (py_lower a = py_lower b)"

fun ci_prefix :: "string \<Rightarrow> string \<Rightarrow> bool" where
  "ci_prefix [] t = True"
| "ci_prefix (p # ps) [] = False"
| "ci_prefix (p # ps) (c # cs) = (if lower_char p = lower_char c then ci_prefix ps cs else False)"

text \<open>\<open>str.strip()\<close>, \<open>str.startswith\<close>, \<open>sep.join\<close>, \<open>str.ljust\<close>.\<close>

definition py_strip :: "string \<Rightarrow> string" where
  "py_strip s = rev (dropWhile is_space (rev (dropWhile is_space s)))"

definition startswith :: "string \<Rightarrow> string \<Rightarrow> bool" where
  "startswith s p = (take (length p) s = p)"

fun py_join :: "string \<Rightarrow> string list \<Rightarrow> string" where
  "py_join sep [] = []"
| "py_join sep [x] = x"
| "py_join sep (x # y # ys) = x @ sep @ py_join sep (y # ys)"

definition ljust :: "nat \<Rightarrow> string \<Rightarrow> string" where
  "ljust w s = s @ replicate (w - length s) CHR '' ''"

text \<open>The decimal text of an integer, as \<open>str\<close> and an f-string print it.\<close>

function show_nat :: "nat \<Rightarrow> string" where
  "show_nat n =
     (if n < 10 then [''0123456789'' ! n]
      else show_nat (n div 10) @ [''0123456789'' ! (n mod 10)])"
  by pat_completeness auto
termination
  by (relation "measure id") auto

declare show_nat.simps [simp del]

definition show_int :: "int \<Rightarrow> string" where
  "show_int i = (if i < 0 then CHR ''-'' # show_nat (nat (- i)) else show_nat (nat i))"

section \<open>Values, rows, exceptions\<close>

text \<open>
  A cell of a result row is any Python object. The code only prints it (\<open>str(v)\<close>)
  and tests its truth (\<open>v or 0\<close>), so an object that is neither \<open>None\<close>, an
  \<open>int\<close> nor a \<open>str\<close> (a \<open>Decimal\<close>, a date) is kept as its printed text and its
  truth value.
\<close>

datatype pyval = PNone | PInt int | PStr string | PObj string bool

fun py_str :: "pyval \<Rightarrow> string" where
  "py_str PNone = ''None''"
| "py_str (PInt i) = show_int i"
| "py_str (PStr s) = s"
| "py_str (PObj printed truth) = printed"

fun truthy :: "pyval \<Rightarrow> bool" where
  "truthy PNone = False"
| "truthy (PInt i) = (i \<noteq> 0)"
| "truthy (PStr s) = (s \<noteq> [])"
| "truthy (PObj printed truth) = truth"

text \<open>
  A row is a \<open>dict\<close> from column name to cell, written as the list of its items in
  insertion order. \<open>dict_get row k d\<close> is \<open>row.get(k, d)\<close>.
\<close>

type_synonym row = "(string \<times> pyval) list"

definition dict_keys :: "row \<Rightarrow> string list" where
  "dict_keys r = map fst r"

definition dict_get :: "row \<Rightarrow> string \<Rightarrow> pyval \<Rightarrow> pyval" where
  "dict_get r k d = (case map_of r k of Some v \<Rightarrow> v | None \<Rightarrow> d)"

text \<open>
  The exceptions of the program, each with its message. \<open>EnvironmentError\<close> is
  Python's alias of \<open>OSError\<close> and \<open>ConnectionError\<close> a subclass of it;
  \<open>OtherError\<close> stands for any other subclass of \<open>Exception\<close> that a collaborator
  raises (an HTTP error of the completion call, a drawing error, a Slack API error).
\<close>

datatype exn =
    EnvironmentError string
  | ConnectionError string
  | OSError string
  | ValueError string
  | KeyError string
  | PoolError string
  | DatabaseError string
  | OtherError string

fun exn_str :: "exn \<Rightarrow> string" where
  "exn_str (EnvironmentError m) = m"
| "exn_str (ConnectionError m) = m"
| "exn_str (OSError m) = m"
| "exn_str (ValueError m) = m"
| "exn_str (KeyError m) = m"
| "exn_str (PoolError m) = m"
| "exn_str (DatabaseError m) = m"
| "exn_str (OtherError m) = m"

fun is_OSError :: "exn \<Rightarrow> bool" where
  "is_OSError (EnvironmentError m) = True"
| "is_OSError (ConnectionError m) = True"
| "is_OSError (OSError m) = True"
| "is_OSError e = False"

section \<open>The collaborators and the state of the process\<close>

text \<open>
  What the renderer hands to the plotting library: the x axis, one series of
  numbers per plotted column, the title and whether a legend is drawn. A number is
  kept as the text that \<open>float\<close> read it from; \<open>ZeroFloat\<close> is the \<open>0.0\<close> put in
  place of a cell that does not parse.
\<close>

datatype fval = Parsed string | ZeroFloat

record figure =
  x_name :: string
  x_labels :: "string list"
  series :: "(string \<times> fval list) list"
  title :: string
  legend :: bool

text \<open>
  The behaviour of everything outside the program, which the code calls and the
  model takes as given: the process environment, the completion service (a function
  of the user turn; the system prompt is a constant of the program), the database
  (the outcome of \<open>cur.execute\<close> followed by \<open>cur.fetchall\<close>), Python's \<open>float\<close>
  (whether a text parses), the plotting library, the temporary-file service, the
  Slack upload and the operating system's answer to \<open>os.remove\<close>.
\<close>

record env =
  hf_token :: "string option"
  completion :: "string \<Rightarrow> exn + string"
  connect_error :: "string option"
  store :: "string \<Rightarrow> exn + row list"
  matplotlib_available :: bool
  float_ok :: "string \<Rightarrow> bool"
  draw_error :: "figure \<Rightarrow> exn option"
  tmp_file :: "exn + string"
  savefig_error :: "string \<Rightarrow> exn option"
  upload_error :: "string \<Rightarrow> exn option"
  unlink_denied :: "string \<Rightarrow> bool"

datatype db_event = GetConn | Execute string | FetchAll | Rollback | Commit | PutConn

text \<open>
  What Slack sees: the acknowledgement, a text sent with \<open>respond\<close>, the block
  message of the primary result (its three sections: question, SQL, table), and a file
  upload (channel, path, title).
\<close>

datatype slack_event =
    Ack
  | Respond string
  | RespondBlocks string string string
  | FilesUpload string string string

text \<open>The lines written to the log, by level and occasion.\<close>

datatype log_event =
    InfoUserAsked string string
  | InfoGeneratedSql string
  | ErrorLlm exn
  | ErrorDb exn
  | InfoReplied string int
  | InfoChartUploaded
  | InfoChartSkipped
  | WarningChartFailed exn

text \<open>
  The state that the program reads and changes: the module globals \<open>_client\<close>
  (created or not) and \<open>_pool\<close> (absent, or present with so many connections handed
  out), the operations seen by the database connection, the files that exist, the
  messages sent to Slack and the log.
\<close>

record world =
  client :: bool
  pool :: "nat option"
  db_log :: "db_event list"
  files :: "string set"
  slack :: "slack_event list"
  logs :: "log_event list"

section \<open>llm.py\<close>

definition get_client :: "env \<Rightarrow> world \<Rightarrow> exn + world" where
  "get_client e w =
     (if client w then Inr w
      else (case hf_token e of
              None \<Rightarrow> Inl (EnvironmentError
                ''HUGGINGFACE_API_TOKEN is not set. Get your free token at https://huggingface.co/settings/tokens'')
            | Some t \<Rightarrow>
                if t = [] then Inl (EnvironmentError
                  ''HUGGINGFACE_API_TOKEN is not set. Get your free token at https://huggingface.co/settings/tokens'')
                else Inr (w\<lparr>client := True\<rparr>)))"

text \<open>
  \<open>re.sub(r"```(?:sql)?", "", raw, flags=re.IGNORECASE)\<close>: from the left, every
  three backticks go, together with the letters \<open>sql\<close> (in any case) when they
  follow at once.
\<close>

fun sub_fences :: "string \<Rightarrow> string" where
  "sub_fences (a # b # c # rest) =
     (if a = CHR 0x60 \<and> b = CHR 0x60 \<and> c = CHR 0x60 then
        (case rest of
           s # q # l # rest' \<Rightarrow>
             if ci_eq [s, q, l] ''sql'' then sub_fences rest' else sub_fences rest
         | _ \<Rightarrow> sub_fences rest)
      else a # sub_fences (b # c # rest))"
| "sub_fences xs = xs"

text \<open>\<open>.replace("```", "")\<close>: from the left, every three backticks go.\<close>

fun replace_fences :: "string \<Rightarrow> string" where
  "replace_fences (a # b # c # rest) =
     (if a = CHR 0x60 \<and> b = CHR 0x60 \<and> c = CHR 0x60 then replace_fences rest
      else a # replace_fences (b # c # rest))"
| "replace_fences xs = xs"

definition strip_fences :: "string \<Rightarrow> string" where
  "strip_fences raw = replace_fences (sub_fences raw)"

text \<open>
  The pattern \<open>(SELECT\b.+?;)\<close> with \<open>re.IGNORECASE | re.DOTALL\<close>, tried at the
  start of \<open>t\<close>: the six letters; a word boundary, which after a letter means that
  a character follows and is no word character; \<open>.+?\<close> takes that character and as
  few more as possible, of any kind, up to the next semicolon. With no semicolon
  after that first character there is no match here.
\<close>

definition select_here :: "string \<Rightarrow> string option" where
  "select_here t =
     (if ci_prefix ''SELECT'' t then
        (case drop 6 t of
           [] \<Rightarrow> None
         | c # rest \<Rightarrow>
             if is_word c then None
             else if CHR '';'' \<in> set rest
               then Some (take 6 t @ c # takeWhile (\<lambda>x. x \<noteq> CHR '';'') rest @ '';'')
               else None)
      else None)"

text \<open>\<open>re.search\<close>: the match at the leftmost position that has one.\<close>

fun search_select :: "string \<Rightarrow> string option" where
  "search_select [] = None"
| "search_select (c # cs) =
     (case select_here (c # cs) of Some m \<Rightarrow> Some m | None \<Rightarrow> search_select cs)"

definition clean_sql :: "string \<Rightarrow> string" where
  "clean_sql raw =
     (let raw1 = strip_fences raw in
        case search_select raw1 of Some m \<Rightarrow> py_strip m | None \<Rightarrow> py_strip raw1)"

text \<open>\<open>HUMAN_TEMPLATE.format(question=question)\<close>\<close>

definition human_turn :: "string \<Rightarrow> string" where
  "human_turn question = ''Question: '' @ question @ ''\<newline>SQL:''"

definition question_to_sql :: "env \<Rightarrow> string \<Rightarrow> world \<Rightarrow> (exn + string) \<times> world" where
  "question_to_sql e question w =
     (case get_client e w of
        Inl err \<Rightarrow> (Inl err, w)
      | Inr w1 \<Rightarrow>
          (case completion e (human_turn question) of
             Inl err \<Rightarrow> (Inl err, w1)
           | Inr raw_output \<Rightarrow>
               (let sql = clean_sql raw_output in
                  if \<not> startswith (py_lower sql) ''select''
                  then (Inl (ValueError
                         (''Model did not return a valid SELECT statement.\<newline>Raw output:\<newline>''
                            @ raw_output)), w1)
                  else (Inr sql, w1))))"

section \<open>db.py\<close>

definition PREVIEW_ROW_LIMIT :: nat where
  "PREVIEW_ROW_LIMIT = 10"

text \<open>
  \<open>_get_pool\<close>: the pool is made on first use, with no connection handed out; a
  connection failure of the driver is raised again as \<open>ConnectionError\<close>.
\<close>

definition get_pool :: "env \<Rightarrow> world \<Rightarrow> exn + world" where
  "get_pool e w =
     (case pool w of
        Some n \<Rightarrow> Inr w
      | None \<Rightarrow>
          (case connect_error e of
             Some msg \<Rightarrow> Inl (ConnectionError (''Could not connect to PostgreSQL: '' @ msg))
           | None \<Rightarrow> Inr (w\<lparr>pool := Some 0\<rparr>)))"

text \<open>
  \<open>getconn\<close> and \<open>putconn\<close> of a pool with \<open>maxconn=5\<close>: the sixth connection
  is refused.
\<close>

definition getconn :: "world \<Rightarrow> exn + world" where
  "getconn w =
     (case pool w of
        None \<Rightarrow> Inl (PoolError ''connection pool is closed'')
      | Some n \<Rightarrow>
          if 5 \<le> n then Inl (PoolError ''connection pool exhausted'')
          else Inr (w\<lparr>pool := Some (n + 1), db_log := db_log w @ [GetConn]\<rparr>))"

definition putconn :: "world \<Rightarrow> world" where
  "putconn w = w\<lparr>pool := map_option (\<lambda>n. n - 1) (pool w), db_log := db_log w @ [PutConn]\<rparr>"

definition db_note :: "db_event \<Rightarrow> world \<Rightarrow> world" where
  "db_note ev w = w\<lparr>db_log := db_log w @ [ev]\<rparr>"

text \<open>
  \<open>execute_query\<close>. The connection is taken before the \<open>try\<close>; the \<open>finally\<close>
  clause puts it back on both ways out of the \<open>try\<close> block. The rollback stands
  after the \<open>with\<close> block, so it runs only when \<open>execute\<close> and \<open>fetchall\<close> raised
  nothing.
\<close>

definition execute_query ::
  "env \<Rightarrow> string \<Rightarrow> world \<Rightarrow> (exn + (string list \<times> row list \<times> int)) \<times> world" where
  "execute_query e sql w =
     (case get_pool e w of
        Inl err \<Rightarrow> (Inl err, w)
      | Inr w1 \<Rightarrow>
          (case getconn w1 of
             Inl err \<Rightarrow> (Inl err, w1)
           | Inr w2 \<Rightarrow>
               (case store e sql of
                  Inl err \<Rightarrow> (Inl err, putconn (db_note (Execute sql) w2))
                | Inr all_rows \<Rightarrow>
                    (let total_count = int (length all_rows);
                         preview_rows = take PREVIEW_ROW_LIMIT all_rows;
                         columns = (case preview_rows of [] \<Rightarrow> [] | r # _ \<Rightarrow> dict_keys r)
                     in (Inr (columns, preview_rows, total_count),
                         putconn (db_note Rollback (db_note FetchAll (db_note (Execute sql) w2))))))))"

text \<open>
  \<open>format_slack_table\<close>. \<open>col_widths\<close> is a \<open>dict\<close>; reading a key that it does
  not hold raises \<open>KeyError\<close>.
\<close>

definition init_widths :: "string list \<Rightarrow> (string \<rightharpoonup> nat)" where
  "init_widths columns = fold (\<lambda>col m. m(col \<mapsto> length col)) columns Map.empty"

definition cell :: "row \<Rightarrow> string \<Rightarrow> string" where
  "cell r col = py_str (dict_get r col (PStr []))"

fun widen_row :: "string list \<Rightarrow> row \<Rightarrow> (string \<rightharpoonup> nat) \<Rightarrow> exn + (string \<rightharpoonup> nat)" where
  "widen_row [] r m = Inr m"
| "widen_row (col # cols) r m =
     (case m col of
        None \<Rightarrow> Inl (KeyError col)
      | Some w \<Rightarrow> widen_row cols r (m(col \<mapsto> max w (length (cell r col)))))"

fun widen_rows :: "string list \<Rightarrow> row list \<Rightarrow> (string \<rightharpoonup> nat) \<Rightarrow> exn + (string \<rightharpoonup> nat)" where
  "widen_rows columns [] m = Inr m"
| "widen_rows columns (r # rs) m =
     (case widen_row columns r m of
        Inl err \<Rightarrow> Inl err
      | Inr m' \<Rightarrow> widen_rows columns rs m')"

fun pad_cells :: "(string \<rightharpoonup> nat) \<Rightarrow> (string \<times> string) list \<Rightarrow> exn + string list" where
  "pad_cells m [] = Inr []"
| "pad_cells m ((col, v) # rest) =
     (case m col of
        None \<Rightarrow> Inl (KeyError col)
      | Some w \<Rightarrow>
          (case pad_cells m rest of
             Inl err \<Rightarrow> Inl err
           | Inr cells \<Rightarrow> Inr (ljust w v # cells)))"

definition fmt_row :: "(string \<rightharpoonup> nat) \<Rightarrow> string list \<Rightarrow> string list \<Rightarrow> exn + string" where
  "fmt_row m columns vals =
     (case pad_cells m (zip columns vals) of
        Inl err \<Rightarrow> Inl err
      | Inr cells \<Rightarrow> Inr (''| '' @ py_join '' | '' cells @ '' |''))"

fun dashes :: "(string \<rightharpoonup> nat) \<Rightarrow> string list \<Rightarrow> exn + string list" where
  "dashes m [] = Inr []"
| "dashes m (col # cols) =
     (case m col of
        None \<Rightarrow> Inl (KeyError col)
      | Some w \<Rightarrow>
          (case dashes m cols of
             Inl err \<Rightarrow> Inl err
           | Inr ds \<Rightarrow> Inr (replicate w CHR ''-'' # ds)))"

fun fmt_rows :: "(string \<rightharpoonup> nat) \<Rightarrow> string list \<Rightarrow> row list \<Rightarrow> exn + string list" where
  "fmt_rows m columns [] = Inr []"
| "fmt_rows m columns (r # rs) =
     (case fmt_row m columns (map (cell r) columns) of
        Inl err \<Rightarrow> Inl err
      | Inr line \<Rightarrow>
          (case fmt_rows m columns rs of
             Inl err \<Rightarrow> Inl err
           | Inr ls \<Rightarrow> Inr (line # ls)))"

definition footer_text :: "nat \<Rightarrow> int \<Rightarrow> string" where
  "footer_text k total_count =
     ''\<newline>_Showing '' @ show_nat k @ '' of '' @ show_int total_count @ '' rows._''"

definition format_slack_table :: "string list \<Rightarrow> row list \<Rightarrow> int \<Rightarrow> exn + string" where
  "format_slack_table columns rows total_count =
     (if rows = [] then Inr ''_No rows returned._''
      else
        (case widen_rows columns rows (init_widths columns) of
           Inl err \<Rightarrow> Inl err
         | Inr col_widths \<Rightarrow>
             (case dashes col_widths columns of
                Inl err \<Rightarrow> Inl err
              | Inr ds \<Rightarrow>
                  (case fmt_row col_widths columns columns of
                     Inl err \<Rightarrow> Inl err
                   | Inr header \<Rightarrow>
                       (case fmt_rows col_widths columns rows of
                          Inl err \<Rightarrow> Inl err
                        | Inr data_rows \<Rightarrow>
                            (let separator = ''+-'' @ py_join ''-+-'' ds @ ''-+'';
                                 table = py_join ''\<newline>''
                                           ([separator, header, separator] @ data_rows @ [separator]);
                                 footer = (if total_count > int (length rows)
                                           then footer_text (length rows) total_count else [])
                             in Inr (table @ footer)))))))"

section \<open>chart.py\<close>

text \<open>
  \<open>re.search\<close> for a pattern that looks at nothing before its first character:
  the pattern is tried at every position from the left.
\<close>

fun search_any :: "(string \<Rightarrow> bool) \<Rightarrow> string \<Rightarrow> bool" where
  "search_any here [] = here []"
| "search_any here (c # cs) = (if here (c # cs) then True else search_any here cs)"

text \<open>
  \<open>\bBETWEEN\b\<close>: the word boundary before the first letter holds at the start of
  the text or after a character that is no word character, and the one after the
  last letter at the end of the text or before such a character. \<open>prev\<close> is the
  character before the position tried.
\<close>

definition between_here :: "char option \<Rightarrow> string \<Rightarrow> bool" where
  "between_here prev t =
     (if (case prev of None \<Rightarrow> True | Some p \<Rightarrow> \<not> is_word p) then
        (if ci_prefix ''BETWEEN'' t
         then (case drop 7 t of [] \<Rightarrow> True | c # _ \<Rightarrow> \<not> is_word c)
         else False)
      else False)"

fun search_between :: "char option \<Rightarrow> string \<Rightarrow> bool" where
  "search_between prev [] = between_here prev []"
| "search_between prev (c # cs) =
     (if between_here prev (c # cs) then True else search_between (Some c) cs)"

text \<open>
  \<open>date\s*OP\<close> for an operator \<open>OP\<close>: the four letters, all the whitespace that
  follows, the operator.
\<close>

definition date_op_here :: "string \<Rightarrow> string \<Rightarrow> bool" where
  "date_op_here op t =
     (if ci_prefix ''date'' t then ci_prefix op (dropWhile is_space (drop 4 t)) else False)"

text \<open>
  \<open>KW\s+BY\s+date\<close> for the keyword \<open>KW\<close> (\<open>GROUP\<close> or \<open>ORDER\<close>): each \<open>\s+\<close>
  is one whitespace character at least and all that follow it.
\<close>

definition by_date_here :: "string \<Rightarrow> string \<Rightarrow> bool" where
  "by_date_here kw t =
     (if ci_prefix kw t then
        (case drop (length kw) t of
           [] \<Rightarrow> False
         | s1 # r1 \<Rightarrow>
             if is_space s1 then
               (let r2 = dropWhile is_space r1 in
                  if ci_prefix ''BY'' r2 then
                    (case drop 2 r2 of
                       [] \<Rightarrow> False
                     | s2 # r3 \<Rightarrow>
                         if is_space s2 then ci_prefix ''date'' (dropWhile is_space r3) else False)
                  else False)
             else False)
      else False)"

definition is_date_range_query :: "string \<Rightarrow> bool" where
  "is_date_range_query sql =
     (let sql_upper = py_upper sql in
        search_between None sql_upper
        \<or> search_any (date_op_here ''>='') sql_upper
        \<or> search_any (date_op_here ''<='') sql_upper
        \<or> search_any (date_op_here ''>'') sql_upper
        \<or> search_any (date_op_here ''<'') sql_upper
        \<or> search_any (by_date_here ''GROUP'') sql_upper
        \<or> search_any (by_date_here ''ORDER'') sql_upper)"

text \<open>
  \<open>generate_chart\<close>. \<open>y_value\<close> is \<open>float(str(row.get(y_col, 0) or 0))\<close> with
  \<open>0.0\<close> in place of a value that does not parse. All the drawing up to
  \<open>plt.tight_layout()\<close> is one call of the plotting library, which may raise; then
  \<open>NamedTemporaryFile(delete=False)\<close> makes the file, and \<open>savefig\<close> writes to it.
\<close>

definition y_value :: "env \<Rightarrow> row \<Rightarrow> string \<Rightarrow> fval" where
  "y_value e r y_col =
     (let v = dict_get r y_col (PInt 0);
          s = py_str (if truthy v then v else PInt 0)
      in if float_ok e s then Parsed s else ZeroFloat)"

definition y_cols_of :: "env \<Rightarrow> string list \<Rightarrow> row list \<Rightarrow> string list" where
  "y_cols_of e columns rows = filter (\<lambda>col. float_ok e (cell (hd rows) col)) (tl columns)"

definition chart_figure :: "env \<Rightarrow> string list \<Rightarrow> row list \<Rightarrow> string \<Rightarrow> figure" where
  "chart_figure e columns rows question =
     (let x_col = hd columns;
          y_cols = y_cols_of e columns rows
      in \<lparr>x_name = x_col,
          x_labels = map (\<lambda>r. cell r x_col) rows,
          series = map (\<lambda>y_col. (y_col, map (\<lambda>r. y_value e r y_col) rows)) y_cols,
          title = (if length question > 60 then take 60 question @ ''...'' else question),
          legend = (length y_cols > 1)\<rparr>)"

definition generate_chart ::
  "env \<Rightarrow> string list \<Rightarrow> row list \<Rightarrow> string \<Rightarrow> world \<Rightarrow> (exn + string option) \<times> world" where
  "generate_chart e columns rows question w =
     (if \<not> matplotlib_available e then (Inr None, w)
      else if rows = [] \<or> length columns < 2 then (Inr None, w)
      else if y_cols_of e columns rows = [] then (Inr None, w)
      else
        (case draw_error e (chart_figure e columns rows question) of
           Some err \<Rightarrow> (Inl err, w)
         | None \<Rightarrow>
             (case tmp_file e of
                Inl err \<Rightarrow> (Inl err, w)
              | Inr name \<Rightarrow>
                  (let w1 = w\<lparr>files := insert name (files w)\<rparr> in
                     case savefig_error e name of
                       Some err \<Rightarrow> (Inl err, w1)
                     | None \<Rightarrow> (Inr (Some name), w1)))))"

text \<open>
  \<open>os.remove\<close> raises \<open>OSError\<close> for a path that does not exist and when the
  operating system refuses. \<open>cleanup_chart\<close> returns the exception that leaves it,
  if any.
\<close>

definition os_remove :: "env \<Rightarrow> string \<Rightarrow> world \<Rightarrow> exn + world" where
  "os_remove e path w =
     (if path \<notin> files w then Inl (OSError ''No such file or directory'')
      else if unlink_denied e path then Inl (OSError ''Permission denied'')
      else Inr (w\<lparr>files := files w - {path}\<rparr>))"

definition cleanup_chart :: "env \<Rightarrow> string \<Rightarrow> world \<Rightarrow> exn option \<times> world" where
  "cleanup_chart e path w =
     (if path \<noteq> [] \<and> path \<in> files w then
        (case os_remove e path w of
           Inl err \<Rightarrow> (if is_OSError err then (None, w) else (Some err, w))
         | Inr w' \<Rightarrow> (None, w'))
      else (None, w))"

section \<open>app.py\<close>

text \<open>The payload of the slash command; a key that is missing reads as \<open>None\<close>.\<close>

record body =
  body_text :: "string option"
  user_id :: "string option"
  channel_id :: "string option"

definition opt_str :: "string option \<Rightarrow> string" where
  "opt_str v = (case v of None \<Rightarrow> ''None'' | Some s \<Rightarrow> s)"

definition respond :: "string \<Rightarrow> world \<Rightarrow> world" where
  "respond msg w = w\<lparr>slack := slack w @ [Respond msg]\<rparr>"

definition log_note :: "log_event \<Rightarrow> world \<Rightarrow> world" where
  "log_note ev w = w\<lparr>logs := logs w @ [ev]\<rparr>"

definition usage_hint :: string where
  "usage_hint =
     '':warning: Please provide a question.\<newline>Usage: `/ask-data show revenue by region for 2025-09-01`''"

text \<open>
  The chart stage of \<open>process\<close>: the \<open>try\<close> block (render, then upload when a
  path came back), the \<open>except Exception\<close> clause that only logs, and the
  \<open>finally\<close> clause, which calls \<open>cleanup_chart\<close> when \<open>chart_path\<close> holds a
  path that is not empty. An exception raised inside \<open>generate_chart\<close> leaves
  \<open>chart_path\<close> at \<open>None\<close>.
\<close>

definition chart_stage ::
  "env \<Rightarrow> string list \<Rightarrow> row list \<Rightarrow> string \<Rightarrow> string option \<Rightarrow> string option \<Rightarrow> world
     \<Rightarrow> exn option \<times> world" where
  "chart_stage e columns rows question uid channel w =
     (case generate_chart e columns rows question w of
        (Inl err, w1) \<Rightarrow> (None, log_note (WarningChartFailed err) w1)
      | (Inr None, w1) \<Rightarrow> (None, log_note InfoChartSkipped w1)
      | (Inr (Some chart_path), w1) \<Rightarrow>
          if chart_path = [] then (None, log_note InfoChartSkipped w1)
          else
            (let w2 = (case upload_error e chart_path of
                         Some err \<Rightarrow> log_note (WarningChartFailed err) w1
                       | None \<Rightarrow>
                           log_note InfoChartUploaded
                             (w1\<lparr>slack := slack w1 @
                                [FilesUpload (opt_str channel) chart_path
                                   (''Chart: '' @ take 50 question)]\<rparr>))
             in cleanup_chart e chart_path w2))"

text \<open>
  \<open>process\<close>, the body of the worker thread. It returns the exception that ends
  the thread, if one escapes.
\<close>

definition process ::
  "env \<Rightarrow> string \<Rightarrow> string option \<Rightarrow> string option \<Rightarrow> world \<Rightarrow> exn option \<times> world" where
  "process e question uid channel w =
     (case question_to_sql e question w of
        (Inl exc, w1) \<Rightarrow>
          (None, respond ('':x: *Failed to generate SQL.*\<newline>```'' @ exn_str exc @ ''```'')
                   (log_note (ErrorLlm exc) w1))
      | (Inr sql, w1) \<Rightarrow>
          (case execute_query e sql (log_note (InfoGeneratedSql sql) w1) of
             (Inl exc, w2) \<Rightarrow>
               (None, respond ('':x: *Query execution failed.*\<newline>```'' @ exn_str exc
                                 @ ''```\<newline>\<newline>*Generated SQL was:*\<newline>```'' @ sql @ ''```'')
                        (log_note (ErrorDb exc) w2))
           | (Inr (columns, rows, total_count), w2) \<Rightarrow>
               (case format_slack_table columns rows total_count of
                  Inl exc \<Rightarrow> (Some exc, w2)
                | Inr table \<Rightarrow>
                    (let w3 = log_note (InfoReplied (opt_str uid) total_count)
                                (w2\<lparr>slack := slack w2 @
                                   [RespondBlocks
                                      ('':mag: *Query from <@'' @ opt_str uid @ ''>*\<newline>>'' @ question)
                                      (''*Generated SQL:*\<newline>```'' @ sql @ ''```'')
                                      (''*Results:*\<newline>```'' @ table @ ''```'')]\<rparr>)
                     in if is_date_range_query sql \<and> rows \<noteq> []
                        then chart_stage e columns rows question uid channel w3
                        else (None, w3)))))"

text \<open>
  \<open>handle_ask_data\<close>: what the handler itself does, and the arguments of the
  thread that it starts, if it starts one.
\<close>

definition handle_ask_data ::
  "env \<Rightarrow> body \<Rightarrow> world \<Rightarrow> world \<times> (string \<times> string option \<times> string option) option" where
  "handle_ask_data e b w =
     (let w1 = w\<lparr>slack := slack w @ [Ack]\<rparr>;
          question = py_strip (case body_text b of None \<Rightarrow> [] | Some t \<Rightarrow> t)
      in if question = [] then (respond usage_hint w1, None)
         else (log_note (InfoUserAsked (opt_str (user_id b)) question)
                 (respond ('':hourglass_flowing_sand: Working on it, <@'' @ opt_str (user_id b)
                            @ ''>... _(first request may take ~15s due to model cold start)_'') w1),
               Some (question, user_id b, channel_id b)))"

text \<open>
  One request from the command to the end of its thread, with no other request
  running in between.
\<close>

definition run_request :: "env \<Rightarrow> body \<Rightarrow> world \<Rightarrow> exn option \<times> world" where
  "run_request e b w =
     (case handle_ask_data e b w of
        (w1, None) \<Rightarrow> (None, w1)
      | (w1, Some (question, uid, channel)) \<Rightarrow> process e question uid channel w1)"

section \<open>A sample environment\<close>

text \<open>
  An environment for trying the program out: a token is set, the completion
  service answers every question with the given text, the database answers every
  statement with the given rows, the plotting library is installed, \<open>float\<close>
  accepts the plain decimals (digits with at most one point and an optional sign,
  which Python's \<open>float\<close> accepts too), and nothing else fails.
\<close>

definition is_digit :: "char \<Rightarrow> bool" where
  "is_digit c = (c \<in> set ''0123456789'')"

definition plain_decimal :: "string \<Rightarrow> bool" where
  "plain_decimal s =
     (let t = (case s of [] \<Rightarrow> [] | c # r \<Rightarrow> if c = CHR ''-'' \<or> c = CHR ''+'' then r else s);
          ip = takeWhile is_digit t;
          r = dropWhile is_digit t
      in case r of
           [] \<Rightarrow> ip \<noteq> []
         | d # fp \<Rightarrow> d = CHR ''.'' \<and> list_all is_digit fp \<and> (ip \<noteq> [] \<or> fp \<noteq> []))"

definition demo_env :: "string \<Rightarrow> row list \<Rightarrow> env" where
  "demo_env answer result =
     \<lparr>hf_token = Some ''hf_demo'',
      completion = (\<lambda>turn. Inr answer),
      connect_error = None,
      store = (\<lambda>sql. Inr result),
      matplotlib_available = True,
      float_ok = plain_decimal,
      draw_error = (\<lambda>fig. None),
      tmp_file = Inr ''/tmp/tmpq3xk.png'',
      savefig_error = (\<lambda>path. None),
      upload_error = (\<lambda>path. None),
      unlink_denied = (\<lambda>path. False)\<rparr>"

definition demo_world :: world where
  "demo_world = \<lparr>client = False, pool = None, db_log = [], files = {}, slack = [], logs = []\<rparr>"

definition demo_rows :: "row list" where
  "demo_rows =
     [[(''region'', PStr ''North''), (''revenue'', PObj ''1250.50'' True)],
      [(''region'', PStr ''South''), (''revenue'', PInt 100)],
      [(''region'', PStr ''East''), (''revenue'', PNone)]]"

text \<open>
  Variations: a database that rejects the statement, an operating system that
  refuses to remove files, a world that holds the chart file, and rows with a date,
  a number and a remark.
\<close>

definition bad_column_env :: env where
  "bad_column_env =
     (demo_env ''SELECT revenu FROM public.sales_daily;'' [])
       \<lparr>store := (\<lambda>sql. Inl (DatabaseError ''column revenu does not exist''))\<rparr>"

definition denied_env :: env where
  "denied_env = (demo_env ''SELECT 1;'' [])\<lparr>unlink_denied := (\<lambda>path. True)\<rparr>"

definition chart_world :: world where
  "chart_world = demo_world\<lparr>files := {''/tmp/tmpq3xk.png''}\<rparr>"

definition chart_rows :: "row list" where
  "chart_rows =
     [[(''date'', PObj ''2025-09-01'' True), (''total_revenue'', PObj ''1250.50'' True),
       (''note'', PStr ''n/a'')],
      [(''date'', PObj ''2025-09-02'' True), (''total_revenue'', PNone), (''note'', PStr ''7'')]]"

text \<open>
  A request for a chart on a full disk: the statement asks for rows by date, and
  \<open>savefig\<close> fails after the temporary file was made.
\<close>

definition daily_sql :: string where
  "daily_sql = ''SELECT date, total_revenue, note FROM t ORDER BY date;''"

definition full_disk_env :: env where
  "full_disk_env =
     (demo_env daily_sql chart_rows)
       \<lparr>savefig_error := (\<lambda>path. Some (OSError ''No space left on device''))\<rparr>"

section \<open>The specification's notions\<close>




text \<open>
  The table that the specification describes, in closed form: the width of a column
  is the greatest length among its header and its cells in the preview rows; a rule
  line, the header line and one line per row, columns and rows in the given order.
\<close>

definition col_width :: "row list \<Rightarrow> string \<Rightarrow> nat" where
  "col_width rows col = Max (insert (length col) ((\<lambda>r. length (cell r col)) ` set rows))"

definition rule_line :: "string list \<Rightarrow> row list \<Rightarrow> string" where
  "rule_line columns rows =
     ''+-'' @ py_join ''-+-'' (map (\<lambda>col. replicate (col_width rows col) CHR ''-'') columns) @ ''-+''"

definition row_line :: "string list \<Rightarrow> row list \<Rightarrow> string list \<Rightarrow> string" where
  "row_line columns rows vals =
     ''| '' @ py_join '' | '' (map (\<lambda>(col, v). ljust (col_width rows col) v) (zip columns vals)) @ '' |''"

definition table_text :: "string list \<Rightarrow> row list \<Rightarrow> string" where
  "table_text columns rows =
     py_join ''\<newline>''
       ([rule_line columns rows, row_line columns rows columns, rule_line columns rows]
        @ map (\<lambda>r. row_line columns rows (map (cell r) columns)) rows
        @ [rule_line columns rows])"

text \<open>\<open>widths_agree columns m f\<close>: the dictionary \<open>m\<close> holds \<open>f c\<close> for every column \<open>c\<close>.\<close>

definition widths_agree :: "string list \<Rightarrow> (string \<rightharpoonup> nat) \<Rightarrow> (string \<Rightarrow> nat) \<Rightarrow> bool" where
  "widths_agree columns m f = (\<forall>c\<in>set columns. m c = Some (f c))"

text \<open>
  What the specification says of a date-range query, read on the text of the
  statement itself and without regard to case: it contains the keyword
  \<open>BETWEEN\<close> (as a word of its own), or the letters \<open>date\<close> followed, after any
  whitespace, by one of the comparison operators, or \<open>GROUP\<close> or \<open>ORDER\<close>,
  whitespace, \<open>BY\<close>, whitespace, \<open>date\<close>. As the specification says of this
  classifier, the letters \<open>date\<close> need not be a word of their own.
\<close>

definition all_space :: "string \<Rightarrow> bool" where
  "all_space ws = (\<forall>c\<in>set ws. is_space c)"

definition contains_between_keyword :: "string \<Rightarrow> bool" where
  "contains_between_keyword t =
     (\<exists>pre kw post. t = pre @ kw @ post \<and> ci_eq kw ''BETWEEN''
        \<and> (pre = [] \<or> \<not> is_word (last pre)) \<and> (post = [] \<or> \<not> is_word (hd post)))"

definition date_followed_by :: "string \<Rightarrow> string \<Rightarrow> bool" where
  "date_followed_by op t =
     (\<exists>pre d ws post. t = pre @ d @ ws @ op @ post \<and> ci_eq d ''date'' \<and> all_space ws)"

definition contains_by_date :: "string \<Rightarrow> string \<Rightarrow> bool" where
  "contains_by_date kw t =
     (\<exists>pre k ws1 b ws2 d post.
        t = pre @ k @ ws1 @ b @ ws2 @ d @ post
        \<and> ci_eq k kw \<and> ws1 \<noteq> [] \<and> all_space ws1
        \<and> ci_eq b ''BY'' \<and> ws2 \<noteq> [] \<and> all_space ws2 \<and> ci_eq d ''date'')"

definition spec_isDateRangeQuery :: "string \<Rightarrow> bool" where
  "spec_isDateRangeQuery sql =
     (contains_between_keyword sql
      \<or> date_followed_by ''>='' sql \<or> date_followed_by ''<='' sql
      \<or> date_followed_by ''>'' sql \<or> date_followed_by ''<'' sql
      \<or> contains_by_date ''GROUP'' sql \<or> contains_by_date ''ORDER'' sql)"

section \<open>The synthesizer's post-processing\<close>

lemma ci_eq_length: "ci_eq a b \<Longrightarrow> length a = length b"
  unfolding ci_eq_def py_lower_def by (metis length_map)

lemma ci_prefix_take: "ci_prefix p t \<longleftrightarrow> length p \<le> length t \<and> ci_eq (take (length p) t) p"
proof (induction p t rule: ci_prefix.induct)
  case (1 t)
  show ?case by (simp add: ci_eq_def)
next
  case (2 p ps)
  show ?case by simp
next
  case (3 p ps c cs)
  then show ?case by (auto simp: ci_eq_def py_lower_def)
qed

lemma ci_prefix_iff: "ci_prefix p t \<longleftrightarrow> (\<exists>kw post. t = kw @ post \<and> ci_eq kw p)"
proof
  assume "ci_prefix p t"
  then show "\<exists>kw post. t = kw @ post \<and> ci_eq kw p"
    unfolding ci_prefix_take by (metis append_take_drop_id)
next
  assume "\<exists>kw post. t = kw @ post \<and> ci_eq kw p"
  then obtain kw post where t: "t = kw @ post" and k: "ci_eq kw p" by blast
  from k have "length kw = length p" by (rule ci_eq_length)
  then show "ci_prefix p t" unfolding ci_prefix_take using t k by simp
qed








lemma whitespace_lower: "\<forall>c\<in>set whitespace_chars. lower_char c = c"
  by (simp add: whitespace_chars_def lower_char_def upper_letters_def lower_letters_def)

lemma space_lower: "is_space c \<Longrightarrow> lower_char c = c"
  using whitespace_lower unfolding is_space_def by blast






section \<open>The formatter\<close>

lemma init_widths_agree: "widths_agree columns (init_widths columns) length"
proof -
  have "\<forall>c. fold (\<lambda>col m. m(col \<mapsto> length col)) cols m0 c =
          (if c \<in> set cols then Some (length c) else m0 c)" for cols and m0 :: "string \<rightharpoonup> nat"
    by (induction cols arbitrary: m0) auto
  then show ?thesis unfolding widths_agree_def init_widths_def by simp
qed

lemma widen_row_agree:
  assumes "widths_agree columns m f" and "set cols \<subseteq> set columns"
  shows "\<exists>m'. widen_row cols r m = Inr m' \<and>
           widths_agree columns m' (\<lambda>c. if c \<in> set cols then max (f c) (length (cell r c)) else f c)"
  using assms
proof (induction cols arbitrary: m f)
  case Nil
  then show ?case by simp
next
  case (Cons col cols)
  from Cons.prems have mc: "m col = Some (f col)" and sub: "set cols \<subseteq> set columns"
    unfolding widths_agree_def by auto
  let ?f1 = "\<lambda>c. if c = col then max (f col) (length (cell r col)) else f c"
  have a1: "widths_agree columns (m(col \<mapsto> max (f col) (length (cell r col)))) ?f1"
    using Cons.prems(1) unfolding widths_agree_def by auto
  from Cons.IH[OF a1 sub] obtain m' where
    w: "widen_row cols r (m(col \<mapsto> max (f col) (length (cell r col)))) = Inr m'"
    and ag: "widths_agree columns m' (\<lambda>c. if c \<in> set cols then max (?f1 c) (length (cell r c)) else ?f1 c)"
    by blast
  have "widths_agree columns m'
          (\<lambda>c. if c \<in> set (col # cols) then max (f c) (length (cell r c)) else f c)"
    using ag unfolding widths_agree_def by auto
  with w mc show ?case by simp
qed

lemma widen_rows_agree:
  assumes "widths_agree columns m f"
  shows "\<exists>m'. widen_rows columns rs m = Inr m' \<and>
           widths_agree columns m' (\<lambda>c. Max (insert (f c) ((\<lambda>r. length (cell r c)) ` set rs)))"
  using assms
proof (induction rs arbitrary: m f)
  case Nil
  then show ?case by simp
next
  case (Cons r rs)
  from widen_row_agree[OF Cons.prems subset_refl, of r] obtain m1 where
    w1: "widen_row columns r m = Inr m1"
    and a1: "widths_agree columns m1 (\<lambda>c. if c \<in> set columns then max (f c) (length (cell r c)) else f c)"
    by blast
  from Cons.IH[OF a1] obtain m' where
    w: "widen_rows columns rs m1 = Inr m'"
    and ag: "widths_agree columns m'
       (\<lambda>c. Max (insert (if c \<in> set columns then max (f c) (length (cell r c)) else f c)
                  ((\<lambda>r. length (cell r c)) ` set rs)))"
    by blast
  have "Max (insert (max (f c) (length (cell r c))) ((\<lambda>r. length (cell r c)) ` set rs))
        = Max (insert (f c) ((\<lambda>r. length (cell r c)) ` set (r # rs)))" for c
  proof -
    let ?S = "(\<lambda>r. length (cell r c)) ` set rs"
    have "Max (insert (max (f c) (length (cell r c))) ?S) = Max (insert (f c) (insert (length (cell r c)) ?S))"
      by (cases "?S = {}") (simp_all add: max.assoc)
    then show ?thesis by simp
  qed
  then have "widths_agree columns m'
       (\<lambda>c. Max (insert (f c) ((\<lambda>r. length (cell r c)) ` set (r # rs))))"
    using ag unfolding widths_agree_def by simp
  with w w1 show ?case by simp
qed

lemma widths_computed:
  "\<exists>m. widen_rows columns rows (init_widths columns) = Inr m \<and> widths_agree columns m (col_width rows)"
  using widen_rows_agree[OF init_widths_agree, of columns rows] unfolding col_width_def by simp

lemma pad_cells_agree:
  assumes "widths_agree columns m f" and "fst ` set cvs \<subseteq> set columns"
  shows "pad_cells m cvs = Inr (map (\<lambda>(col, v). ljust (f col) v) cvs)"
  using assms(2)
proof (induction cvs)
  case Nil
  then show ?case by simp
next
  case (Cons cv cvs)
  obtain col v where cv: "cv = (col, v)" by (cases cv)
  with Cons.prems assms(1) have "m col = Some (f col)" unfolding widths_agree_def by auto
  with Cons cv show ?case by simp
qed

lemma fmt_row_agree:
  assumes "widths_agree columns m (col_width rows)"
  shows "fmt_row m columns vals = Inr (row_line columns rows vals)"
proof -
  have "fst ` set (zip columns vals) \<subseteq> set columns"
    by (auto dest: set_zip_leftD)
  from pad_cells_agree[OF assms this] show ?thesis
    unfolding fmt_row_def row_line_def by simp
qed

lemma dashes_agree:
  assumes "widths_agree columns m f" and "set cols \<subseteq> set columns"
  shows "dashes m cols = Inr (map (\<lambda>col. replicate (f col) CHR ''-'') cols)"
  using assms(2)
proof (induction cols)
  case Nil
  then show ?case by simp
next
  case (Cons col cols)
  with assms(1) have "m col = Some (f col)" unfolding widths_agree_def by auto
  with Cons show ?case by simp
qed

lemma fmt_rows_agree:
  assumes "widths_agree columns m (col_width rows)"
  shows "fmt_rows m columns rs = Inr (map (\<lambda>r. row_line columns rows (map (cell r) columns)) rs)"
  by (induction rs) (simp_all add: fmt_row_agree[OF assms])

lemma format_slack_table_closed:
  assumes "rows \<noteq> []"
  shows "format_slack_table columns rows total_count =
           Inr (table_text columns rows
                @ (if total_count > int (length rows) then footer_text (length rows) total_count else []))"
proof -
  from widths_computed obtain m where
    w: "widen_rows columns rows (init_widths columns) = Inr m"
    and ag: "widths_agree columns m (col_width rows)" by blast
  show ?thesis
    unfolding format_slack_table_def table_text_def rule_line_def
    using assms w dashes_agree[OF ag subset_refl] fmt_row_agree[OF ag] fmt_rows_agree[OF ag]
    by (simp add: Let_def)
qed

text \<open>
  Claim C6. For preview rows that are not empty, the width that \<open>format_slack_table\<close>
  computes for a column is the greatest length among the header and the printed
  cells of that column in all preview rows; the output is the table with columns and
  rows in the order given; and the footer \<open>Showing K of N rows.\<close> is appended exactly
  when the total is greater than the number of preview rows.
\<close>

theorem format_widths_order_footer:
  assumes "rows \<noteq> []"
  shows "(\<exists>col_widths. widen_rows columns rows (init_widths columns) = Inr col_widths
            \<and> (\<forall>col\<in>set columns.
                  col_widths col =
                    Some (Max (insert (length col) ((\<lambda>r. length (cell r col)) ` set rows)))))
       \<and> format_slack_table columns rows total_count =
           Inr (table_text columns rows
                @ (if total_count > int (length rows)
                   then ''\<newline>_Showing '' @ show_nat (length rows) @ '' of ''
                          @ show_int total_count @ '' rows._''
                   else []))"
proof
  from widths_computed[of columns rows]
  show "\<exists>col_widths. widen_rows columns rows (init_widths columns) = Inr col_widths
            \<and> (\<forall>col\<in>set columns.
                  col_widths col =
                    Some (Max (insert (length col) ((\<lambda>r. length (cell r col)) ` set rows))))"
    unfolding widths_agree_def col_width_def by blast
next
  from format_slack_table_closed[OF assms, of columns total_count]
  show "format_slack_table columns rows total_count =
           Inr (table_text columns rows
                @ (if total_count > int (length rows)
                   then ''\<newline>_Showing '' @ show_nat (length rows) @ '' of ''
                          @ show_int total_count @ '' rows._''
                   else []))"
    unfolding footer_text_def by simp
qed

theorem format_widths_order_footer_witness:
  "demo_rows \<noteq> []
   \<and> format_slack_table [''region'', ''revenue''] demo_rows 37 =
       Inr (''+--------+---------+\<newline>'' @
            ''| region | revenue |\<newline>'' @
            ''+--------+---------+\<newline>'' @
            ''| North  | 1250.50 |\<newline>'' @
            ''| South  | 100     |\<newline>'' @
            ''| East   | None    |\<newline>'' @
            ''+--------+---------+\<newline>'' @
            ''_Showing 3 of 37 rows._'')
   \<and> format_slack_table [''region'', ''revenue''] demo_rows 3 =
       Inr (''+--------+---------+\<newline>'' @
            ''| region | revenue |\<newline>'' @
            ''+--------+---------+\<newline>'' @
            ''| North  | 1250.50 |\<newline>'' @
            ''| South  | 100     |\<newline>'' @
            ''| East   | None    |\<newline>'' @
            ''+--------+---------+'')"
proof -
  have n: "demo_rows \<noteq> []" by (simp add: demo_rows_def)
  have t: "table_text [''region'', ''revenue''] demo_rows =
            ''+--------+---------+\<newline>'' @
            ''| region | revenue |\<newline>'' @
            ''+--------+---------+\<newline>'' @
            ''| North  | 1250.50 |\<newline>'' @
            ''| South  | 100     |\<newline>'' @
            ''| East   | None    |\<newline>'' @
            ''+--------+---------+''"
    by code_simp
  have l: "length demo_rows = 3" by (simp add: demo_rows_def)
  have s: "show_nat 3 = ''3''" "show_int 37 = ''37''" by code_simp+
  from format_widths_order_footer[OF n, of "[''region'', ''revenue'']" 37]
       format_widths_order_footer[OF n, of "[''region'', ''revenue'']" 3]
  show ?thesis using n t l s by simp
qed

section \<open>The executor\<close>

lemma show_10_37: "show_nat 10 = ''10''" "show_int 37 = ''37''"
  by code_simp+

text \<open>
  Claim C2. When a connection is to be had and the database answers the statement
  with \<open>all_rows\<close>, \<open>execute_query\<close> returns the first \<open>min (length all_rows) 10\<close> of
  them, in order, and their exact number; for 37 rows the preview has 10 rows, the
  total is 37, and the formatter's output ends with the footer
  \<open>Showing 10 of 37 rows.\<close> (set in italics by underscores).
\<close>

theorem execute_preview_and_total:
  assumes "get_pool e w = Inr w1" and "getconn w1 = Inr w2" and "store e sql = Inr all_rows"
  shows "\<exists>columns w'.
           execute_query e sql w =
             (Inr (columns, take (min (length all_rows) 10) all_rows, int (length all_rows)), w')
           \<and> (length all_rows = 37 \<longrightarrow>
                length (take (min (length all_rows) 10) all_rows) = 10
                \<and> (\<exists>table.
                     format_slack_table columns (take (min (length all_rows) 10) all_rows)
                         (int (length all_rows))
                       = Inr (table @ ''\<newline>_Showing 10 of 37 rows._'')))"
proof -
  let ?preview = "take (min (length all_rows) 10) all_rows"
  let ?columns = "case ?preview of [] \<Rightarrow> [] | r # _ \<Rightarrow> dict_keys r"
  have p: "take PREVIEW_ROW_LIMIT all_rows = ?preview"
    by (simp add: PREVIEW_ROW_LIMIT_def min_def)
  have run: "execute_query e sql w =
      (Inr (?columns, ?preview, int (length all_rows)),
       putconn (db_note Rollback (db_note FetchAll (db_note (Execute sql) w2))))"
    unfolding execute_query_def using assms p by (simp add: Let_def)
  have foot: "\<exists>table. format_slack_table ?columns ?preview (int (length all_rows))
                = Inr (table @ ''\<newline>_Showing 10 of 37 rows._'')"
    if len: "length all_rows = 37"
  proof -
    from len have l10: "length ?preview = 10" by simp
    then have ne: "?preview \<noteq> []" by auto
    from format_slack_table_closed[OF ne, of ?columns "int (length all_rows)"] l10 len
    have "format_slack_table ?columns ?preview (int (length all_rows))
            = Inr (table_text ?columns ?preview @ footer_text 10 37)"
      by simp
    moreover have "footer_text 10 37 = ''\<newline>_Showing 10 of 37 rows._''"
      unfolding footer_text_def show_10_37 by simp
    ultimately show ?thesis by metis
  qed
  show ?thesis using run foot by auto
qed

theorem execute_preview_and_total_witness:
  "\<exists>columns w'.
     execute_query (demo_env ''SELECT region FROM t;'' (replicate 37 [(''region'', PStr ''North'')]))
         ''SELECT region FROM t;'' demo_world
       = (Inr (columns, replicate 10 [(''region'', PStr ''North'')], 37), w')
     \<and> (\<exists>table. format_slack_table columns (replicate 10 [(''region'', PStr ''North'')]) 37
                  = Inr (table @ ''\<newline>_Showing 10 of 37 rows._''))"
proof -
  let ?rows = "replicate 37 [(''region'', PStr ''North'')]"
  let ?e = "demo_env ''SELECT region FROM t;'' ?rows"
  have a: "get_pool ?e demo_world = Inr (demo_world\<lparr>pool := Some 0\<rparr>)"
    by (simp add: get_pool_def demo_env_def demo_world_def)
  have b: "getconn (demo_world\<lparr>pool := Some 0\<rparr>)
             = Inr (demo_world\<lparr>pool := Some 1, db_log := [GetConn]\<rparr>)"
    by (simp add: getconn_def demo_world_def)
  have c: "store ?e ''SELECT region FROM t;'' = Inr ?rows"
    by (simp add: demo_env_def)
  have t: "take (min (length ?rows) 10) ?rows = replicate 10 [(''region'', PStr ''North'')]"
    by simp
  from execute_preview_and_total[OF a b c] show ?thesis
    unfolding t by simp
qed

section \<open>The executor's connection\<close>

text \<open>
  The operations that one call of \<open>execute_query\<close> adds to the connection's log, on
  each of its ways out.
\<close>

lemma execute_query_log:
  "db_log (snd (execute_query e sql w)) =
     db_log w @
       (case get_pool e w of
          Inl err \<Rightarrow> []
        | Inr w1 \<Rightarrow>
            (case getconn w1 of
               Inl err \<Rightarrow> []
             | Inr w2 \<Rightarrow>
                 (case store e sql of
                    Inl err \<Rightarrow> [GetConn, Execute sql, PutConn]
                  | Inr all_rows \<Rightarrow> [GetConn, Execute sql, FetchAll, Rollback, PutConn])))"
  unfolding execute_query_def get_pool_def getconn_def putconn_def db_note_def
  by (auto split: sum.splits option.splits simp: Let_def)

text \<open>
  Claim C3, on the way out through an exception. The database rejects the
  statement: the connection goes back to the pool (\<open>PutConn\<close> is the last
  operation, and no connection stays handed out) and nothing is committed, but no
  rollback is issued before it is returned.
\<close>

theorem rollback_skipped_when_execute_raises:
  "execute_query bad_column_env ''SELECT revenu FROM public.sales_daily;'' demo_world =
     (Inl (DatabaseError ''column revenu does not exist''),
      demo_world\<lparr>pool := Some 0,
                  db_log := [GetConn, Execute ''SELECT revenu FROM public.sales_daily;'', PutConn]\<rparr>)"
  by (simp add: execute_query_def get_pool_def getconn_def putconn_def db_note_def
        bad_column_env_def demo_env_def demo_world_def)

section \<open>The command handler\<close>

lemma strip_all_space: "\<forall>c\<in>set t. is_space c \<Longrightarrow> py_strip t = []"
proof -
  assume "\<forall>c\<in>set t. is_space c"
  then have "dropWhile is_space t = []" using dropWhile_eq_Nil_conv by blast
  then show ?thesis unfolding py_strip_def by (simp only: rev.simps dropWhile.simps)
qed

text \<open>
  Claim C9. When the command's text is missing, empty or whitespace only, the
  handler acknowledges, responds with the usage hint and starts no thread: the
  request ends there, and nothing else of the world changes (no client, no pool, no
  statement, no file, no log line).
\<close>

theorem empty_question_usage_hint:
  assumes "body_text b = None \<or> (\<exists>t. body_text b = Some t \<and> (\<forall>c\<in>set t. is_space c))"
  shows "handle_ask_data e b w = (w\<lparr>slack := slack w @ [Ack, Respond usage_hint]\<rparr>, None)
       \<and> run_request e b w = (None, w\<lparr>slack := slack w @ [Ack, Respond usage_hint]\<rparr>)"
proof -
  from assms have q: "py_strip (case body_text b of None \<Rightarrow> [] | Some t \<Rightarrow> t) = []"
  proof
    assume "body_text b = None"
    then show ?thesis by (simp add: py_strip_def)
  next
    assume "\<exists>t. body_text b = Some t \<and> (\<forall>c\<in>set t. is_space c)"
    then obtain t where "body_text b = Some t" and "\<forall>c\<in>set t. is_space c" by blast
    then show ?thesis by (simp add: strip_all_space)
  qed
  then have h: "handle_ask_data e b w = (w\<lparr>slack := slack w @ [Ack, Respond usage_hint]\<rparr>, None)"
    unfolding handle_ask_data_def respond_def by (simp add: Let_def)
  then show ?thesis unfolding run_request_def by simp
qed

theorem empty_question_usage_hint_witness:
  "run_request (demo_env ''SELECT 1;'' [])
      \<lparr>body_text = Some ''   '', user_id = Some ''U1'', channel_id = Some ''C1''\<rparr> demo_world
     = (None, demo_world\<lparr>slack := [Ack, Respond usage_hint]\<rparr>)
   \<and> run_request (demo_env ''SELECT 1;'' [])
      \<lparr>body_text = None, user_id = Some ''U1'', channel_id = Some ''C1''\<rparr> demo_world
     = (None, demo_world\<lparr>slack := [Ack, Respond usage_hint]\<rparr>)"
proof -
  have s: "\<forall>c\<in>set ''   ''. is_space c" by (simp add: is_space_def whitespace_chars_def)
  have e: "slack demo_world = []" by (simp add: demo_world_def)
  from empty_question_usage_hint[of "\<lparr>body_text = Some ''   '', user_id = Some ''U1'', channel_id = Some ''C1''\<rparr>"
         "demo_env ''SELECT 1;'' []" demo_world]
       empty_question_usage_hint[of "\<lparr>body_text = None, user_id = Some ''U1'', channel_id = Some ''C1''\<rparr>"
         "demo_env ''SELECT 1;'' []" demo_world]
  show ?thesis using s e by simp
qed

section \<open>The renderer without its library\<close>

text \<open>
  Claim C10. When the plotting library cannot be imported, \<open>generate_chart\<close>
  returns \<open>None\<close> for every input, raises nothing and changes nothing; the chart
  stage then only logs that the chart was skipped.
\<close>

theorem no_plotting_library_no_chart:
  assumes "\<not> matplotlib_available e"
  shows "generate_chart e columns rows question w = (Inr None, w)
       \<and> chart_stage e columns rows question uid channel w = (None, log_note InfoChartSkipped w)"
  using assms by (simp add: generate_chart_def chart_stage_def)

theorem no_plotting_library_no_chart_witness:
  "2 \<le> length [''region'', ''revenue''] \<and> demo_rows \<noteq> []
   \<and> y_cols_of ((demo_env ''SELECT 1;'' demo_rows)\<lparr>matplotlib_available := False\<rparr>)
        [''region'', ''revenue''] demo_rows = [''revenue'']
   \<and> generate_chart ((demo_env ''SELECT 1;'' demo_rows)\<lparr>matplotlib_available := False\<rparr>)
        [''region'', ''revenue''] demo_rows ''revenue by region'' demo_world = (Inr None, demo_world)"
proof -
  let ?e = "(demo_env ''SELECT 1;'' demo_rows)\<lparr>matplotlib_available := False\<rparr>"
  have m: "\<not> matplotlib_available ?e" by simp
  have y: "y_cols_of ?e [''region'', ''revenue''] demo_rows = [''revenue'']"
    by code_simp
  have n: "demo_rows \<noteq> []" by (simp add: demo_rows_def)
  from no_plotting_library_no_chart[OF m] y n show ?thesis by simp
qed

section \<open>Disposal of the chart file\<close>

text \<open>
  Claim C8, as amended. \<open>cleanup_chart\<close> never raises. On a path that exists and
  that the operating system lets it remove, the file is gone afterwards. When the
  removal is refused, the error is swallowed and the file stays. On an empty path or
  one that does not exist nothing changes, and so a second call changes nothing.
\<close>

theorem cleanup_chart_behaviour:
  "fst (cleanup_chart e path w) = None
   \<and> (path \<noteq> [] \<and> path \<in> files w \<and> \<not> unlink_denied e path \<longrightarrow>
        snd (cleanup_chart e path w) = w\<lparr>files := files w - {path}\<rparr>
        \<and> path \<notin> files (snd (cleanup_chart e path w)))
   \<and> (path \<in> files w \<and> unlink_denied e path \<longrightarrow> snd (cleanup_chart e path w) = w)
   \<and> (path = [] \<or> path \<notin> files w \<longrightarrow> snd (cleanup_chart e path w) = w)
   \<and> cleanup_chart e path (snd (cleanup_chart e path w)) = (None, snd (cleanup_chart e path w))"
  by (auto simp: cleanup_chart_def os_remove_def)

theorem cleanup_chart_behaviour_witness:
  "cleanup_chart (demo_env ''SELECT 1;'' []) ''/tmp/tmpq3xk.png'' chart_world = (None, demo_world)
   \<and> cleanup_chart denied_env ''/tmp/tmpq3xk.png'' chart_world = (None, chart_world)
   \<and> cleanup_chart (demo_env ''SELECT 1;'' []) ''/tmp/tmpq3xk.png'' demo_world = (None, demo_world)"
proof -
  have a: "''/tmp/tmpq3xk.png'' \<in> files chart_world" "''/tmp/tmpq3xk.png'' \<notin> files demo_world"
    "\<not> unlink_denied (demo_env ''SELECT 1;'' []) ''/tmp/tmpq3xk.png''"
    "unlink_denied denied_env ''/tmp/tmpq3xk.png''"
    "chart_world\<lparr>files := files chart_world - {''/tmp/tmpq3xk.png''}\<rparr> = demo_world"
    by (simp_all add: chart_world_def demo_world_def demo_env_def denied_env_def)
  from cleanup_chart_behaviour[of "demo_env ''SELECT 1;'' []" "''/tmp/tmpq3xk.png''" chart_world]
       cleanup_chart_behaviour[of denied_env "''/tmp/tmpq3xk.png''" chart_world]
       cleanup_chart_behaviour[of "demo_env ''SELECT 1;'' []" "''/tmp/tmpq3xk.png''" demo_world]
  show ?thesis using a by (simp add: prod_eq_iff)
qed

text \<open>
  Claim C8 as stated fails where the operating system refuses the removal: the file
  exists before the call and after it.
\<close>

theorem cleanup_chart_denied_counterexample:
  "''/tmp/tmpq3xk.png'' \<in> files chart_world
   \<and> fst (cleanup_chart denied_env ''/tmp/tmpq3xk.png'' chart_world) = None
   \<and> ''/tmp/tmpq3xk.png'' \<in> files (snd (cleanup_chart denied_env ''/tmp/tmpq3xk.png'' chart_world))"
  by (simp add: cleanup_chart_def os_remove_def denied_env_def chart_world_def demo_world_def)

section \<open>Chart eligibility\<close>

lemma y_cols_nonempty:
  "y_cols_of e columns rows \<noteq> [] \<longleftrightarrow> (\<exists>col\<in>set (tl columns). float_ok e (cell (hd rows) col))"
  unfolding y_cols_of_def by (simp add: filter_empty_conv)

text \<open>
  Claim C7, as amended. \<open>generate_chart\<close> returns \<open>None\<close>, and no error, when there
  are fewer than two columns, no rows, or no column after the first whose first-row
  value parses as a float. Otherwise, when the plotting library is installed and
  neither drawing, making the temporary file nor saving raises, it returns the path
  of the file made, and the plotted series are exactly the columns after the first
  whose first-row value parses, in order.
\<close>

theorem render_eligibility:
  "(length columns < 2 \<or> rows = []
      \<or> (\<forall>col\<in>set (tl columns). \<not> float_ok e (cell (hd rows) col)) \<longrightarrow>
        generate_chart e columns rows question w = (Inr None, w))
   \<and> (matplotlib_available e \<and> 2 \<le> length columns \<and> rows \<noteq> []
        \<and> (\<exists>col\<in>set (tl columns). float_ok e (cell (hd rows) col))
        \<and> draw_error e (chart_figure e columns rows question) = None
        \<and> tmp_file e = Inr name \<and> savefig_error e name = None \<longrightarrow>
        generate_chart e columns rows question w = (Inr (Some name), w\<lparr>files := insert name (files w)\<rparr>)
        \<and> map fst (series (chart_figure e columns rows question))
            = filter (\<lambda>col. float_ok e (cell (hd rows) col)) (tl columns))"
proof (intro conjI impI)
  assume "length columns < 2 \<or> rows = []
      \<or> (\<forall>col\<in>set (tl columns). \<not> float_ok e (cell (hd rows) col))"
  then have "rows = [] \<or> length columns < 2 \<or> y_cols_of e columns rows = []"
    using y_cols_nonempty[of e columns rows] by blast
  then show "generate_chart e columns rows question w = (Inr None, w)"
    unfolding generate_chart_def by auto
next
  assume a: "matplotlib_available e \<and> 2 \<le> length columns \<and> rows \<noteq> []
        \<and> (\<exists>col\<in>set (tl columns). float_ok e (cell (hd rows) col))
        \<and> draw_error e (chart_figure e columns rows question) = None
        \<and> tmp_file e = Inr name \<and> savefig_error e name = None"
  then have y: "y_cols_of e columns rows \<noteq> []" using y_cols_nonempty by blast
  with a show "generate_chart e columns rows question w
      = (Inr (Some name), w\<lparr>files := insert name (files w)\<rparr>)"
    unfolding generate_chart_def by (simp add: Let_def)
  show "map fst (series (chart_figure e columns rows question))
            = filter (\<lambda>col. float_ok e (cell (hd rows) col)) (tl columns)"
    unfolding chart_figure_def y_cols_of_def by (simp add: Let_def comp_def)
qed

theorem render_eligibility_witness:
  "generate_chart (demo_env ''SELECT 1;'' chart_rows) [''date''] chart_rows ''revenue per day'' demo_world
     = (Inr None, demo_world)
   \<and> generate_chart (demo_env ''SELECT 1;'' chart_rows) [''date'', ''note''] chart_rows
       ''revenue per day'' demo_world = (Inr None, demo_world)
   \<and> generate_chart (demo_env ''SELECT 1;'' chart_rows) [''date'', ''total_revenue'', ''note''] chart_rows
       ''revenue per day'' demo_world = (Inr (Some ''/tmp/tmpq3xk.png''), chart_world)
   \<and> series (chart_figure (demo_env ''SELECT 1;'' chart_rows) [''date'', ''total_revenue'', ''note'']
        chart_rows ''revenue per day'') = [(''total_revenue'', [Parsed ''1250.50'', Parsed ''0''])]"
proof -
  let ?e = "demo_env ''SELECT 1;'' chart_rows"
  let ?cols = "[''date'', ''total_revenue'', ''note'']"
  have f1: "float_ok ?e (cell (hd chart_rows) ''total_revenue'')"
    by code_simp
  have f2: "\<not> float_ok ?e (cell (hd chart_rows) ''note'')"
    by code_simp
  have s: "series (chart_figure ?e ?cols chart_rows ''revenue per day'')
            = [(''total_revenue'', [Parsed ''1250.50'', Parsed ''0''])]"
    by code_simp
  have n: "chart_rows \<noteq> []" by (simp add: chart_rows_def)
  have env: "matplotlib_available ?e" "draw_error ?e (chart_figure ?e ?cols chart_rows ''revenue per day'') = None"
    "tmp_file ?e = Inr ''/tmp/tmpq3xk.png''" "savefig_error ?e ''/tmp/tmpq3xk.png'' = None"
    by (simp_all add: demo_env_def)
  have w: "demo_world\<lparr>files := insert ''/tmp/tmpq3xk.png'' (files demo_world)\<rparr> = chart_world"
    by (simp add: chart_world_def demo_world_def)
  from render_eligibility[of "[''date'']" chart_rows ?e "''revenue per day''" demo_world]
  have a: "generate_chart ?e [''date''] chart_rows ''revenue per day'' demo_world = (Inr None, demo_world)"
    by simp
  from render_eligibility[of "[''date'', ''note'']" chart_rows ?e "''revenue per day''" demo_world] f2
  have b: "generate_chart ?e [''date'', ''note''] chart_rows ''revenue per day'' demo_world
             = (Inr None, demo_world)"
    by simp
  from render_eligibility[of ?cols chart_rows ?e "''revenue per day''" demo_world "''/tmp/tmpq3xk.png''"]
       f1 n env w
  have c: "generate_chart ?e ?cols chart_rows ''revenue per day'' demo_world
             = (Inr (Some ''/tmp/tmpq3xk.png''), chart_world)"
    by simp
  from a b c s show ?thesis by simp
qed

text \<open>
  Claim C7 as stated fails when the plotting library is not installed: three
  columns, two rows, a first-row value that parses, and yet the result is \<open>None\<close>.
\<close>

theorem render_without_library_counterexample:
  "2 \<le> length [''date'', ''total_revenue'', ''note''] \<and> chart_rows \<noteq> []
   \<and> float_ok ((demo_env ''SELECT 1;'' chart_rows)\<lparr>matplotlib_available := False\<rparr>)
        (cell (hd chart_rows) ''total_revenue'')
   \<and> generate_chart ((demo_env ''SELECT 1;'' chart_rows)\<lparr>matplotlib_available := False\<rparr>)
        [''date'', ''total_revenue'', ''note''] chart_rows ''revenue per day'' demo_world
       = (Inr None, demo_world)"
proof -
  have "float_ok ((demo_env ''SELECT 1;'' chart_rows)\<lparr>matplotlib_available := False\<rparr>)
        (cell (hd chart_rows) ''total_revenue'')"
    by code_simp
  then show ?thesis by (simp add: generate_chart_def chart_rows_def)
qed

section \<open>The query shape classifier\<close>

text \<open>Upper-casing changes neither the class of a character nor its lower-case form.\<close>

lemma case_table:
  "list_all (\<lambda>(l, u). lower_char u = lower_char l \<and> is_word u = is_word l \<and> is_space u = is_space l)
     (zip lower_letters upper_letters)"
  by code_simp

lemma sharp_s: "lower_char (CHR 0xDF) = CHR 0xDF" "is_word (CHR 0xDF)" "\<not> is_space (CHR 0xDF)"
  "lower_char CHR ''S'' = CHR ''s''" "is_word CHR ''S''" "\<not> is_space CHR ''S''"
  by code_simp+

lemma upper_sharp_s: "upper_char (CHR 0xDF) = ''SS''"
  by (simp add: upper_char_def)

lemma upper_char_cases:
  "(c = CHR 0xDF \<and> upper_char c = ''SS'')
   \<or> (c \<noteq> CHR 0xDF \<and> (\<exists>u. upper_char c = [u] \<and> lower_char u = lower_char c
                                  \<and> is_word u = is_word c \<and> is_space u = is_space c))"
proof (cases "c = CHR 0xDF")
  case True
  then show ?thesis by (simp add: upper_char_def)
next
  case False
  show ?thesis
  proof (cases "map_of (zip lower_letters upper_letters) c")
    case None
    with False show ?thesis by (simp add: upper_char_def)
  next
    case (Some u)
    then have "(c, u) \<in> set (zip lower_letters upper_letters)" by (rule map_of_SomeD)
    with case_table have "lower_char u = lower_char c \<and> is_word u = is_word c \<and> is_space u = is_space c"
      unfolding list_all_iff by blast
    with False Some show ?thesis by (simp add: upper_char_def)
  qed
qed

lemma py_upper_Cons: "py_upper (c # cs) = upper_char c @ py_upper cs"
  by (simp add: py_upper_def)

lemma py_upper_Nil: "py_upper [] = []"
  by (simp add: py_upper_def)

lemma ci_prefix_upper:
  assumes "\<forall>x\<in>set p. lower_char x \<noteq> CHR ''s'' \<and> lower_char x \<noteq> CHR 0xDF"
  shows "ci_prefix p (py_upper t) = ci_prefix p t"
  using assms
proof (induction p t rule: ci_prefix.induct)
  case (1 t)
  show ?case by simp
next
  case (2 p ps)
  show ?case by (simp add: py_upper_Nil)
next
  case (3 p ps c cs)
  from "3.prems" have px: "lower_char p \<noteq> CHR ''s''" "lower_char p \<noteq> CHR 0xDF"
    and rest: "\<forall>x\<in>set ps. lower_char x \<noteq> CHR ''s'' \<and> lower_char x \<noteq> CHR 0xDF"
    by auto
  from upper_char_cases[of c] show ?case
  proof
    assume "c = CHR 0xDF \<and> upper_char c = ''SS''"
    then show ?thesis using px sharp_s by (auto simp: py_upper_Cons)
  next
    assume "c \<noteq> CHR 0xDF \<and> (\<exists>u. upper_char c = [u] \<and> lower_char u = lower_char c
                                  \<and> is_word u = is_word c \<and> is_space u = is_space c)"
    then obtain u where u: "upper_char c = [u]" "lower_char u = lower_char c" by blast
    show ?thesis
    proof (cases "lower_char p = lower_char c")
      case True
      with "3.IH"[OF True rest] u show ?thesis by (simp add: py_upper_Cons)
    next
      case False
      with u show ?thesis by (simp add: py_upper_Cons)
    qed
  qed
qed

lemma drop_upper:
  assumes "\<forall>x\<in>set p. lower_char x \<noteq> CHR ''s'' \<and> lower_char x \<noteq> CHR 0xDF"
    and "ci_prefix p t"
  shows "drop (length p) (py_upper t) = py_upper (drop (length p) t)"
  using assms
proof (induction p t rule: ci_prefix.induct)
  case (1 t)
  show ?case by simp
next
  case (2 p ps)
  then show ?case by simp
next
  case (3 p ps c cs)
  from "3.prems" have px: "lower_char p \<noteq> CHR 0xDF"
    and rest: "\<forall>x\<in>set ps. lower_char x \<noteq> CHR ''s'' \<and> lower_char x \<noteq> CHR 0xDF"
    and eq: "lower_char p = lower_char c" and more: "ci_prefix ps cs"
    by (auto split: if_splits)
  from upper_char_cases[of c] show ?case
  proof
    assume "c = CHR 0xDF \<and> upper_char c = ''SS''"
    with eq px sharp_s(1) show ?thesis by simp
  next
    assume "c \<noteq> CHR 0xDF \<and> (\<exists>u. upper_char c = [u] \<and> lower_char u = lower_char c
                                  \<and> is_word u = is_word c \<and> is_space u = is_space c)"
    then obtain u where u: "upper_char c = [u]" by blast
    from "3.IH"[OF eq rest more] u show ?thesis by (simp add: py_upper_Cons)
  qed
qed

lemma dropWhile_space_upper: "dropWhile is_space (py_upper t) = py_upper (dropWhile is_space t)"
proof (induction t)
  case Nil
  show ?case by (simp add: py_upper_Nil)
next
  case (Cons c cs)
  from upper_char_cases[of c] show ?case
  proof
    assume "c = CHR 0xDF \<and> upper_char c = ''SS''"
    then show ?thesis using sharp_s by (simp add: py_upper_Cons upper_sharp_s)
  next
    assume "c \<noteq> CHR 0xDF \<and> (\<exists>u. upper_char c = [u] \<and> lower_char u = lower_char c
                                  \<and> is_word u = is_word c \<and> is_space u = is_space c)"
    then obtain u where "upper_char c = [u]" "is_space u = is_space c" by blast
    with Cons show ?thesis by (simp add: py_upper_Cons)
  qed
qed

lemma first_word_upper:
  "(case py_upper t of [] \<Rightarrow> True | c # _ \<Rightarrow> \<not> is_word c) = (case t of [] \<Rightarrow> True | c # _ \<Rightarrow> \<not> is_word c)"
proof (cases t)
  case Nil
  then show ?thesis by (simp add: py_upper_Nil)
next
  case (Cons c cs)
  from upper_char_cases[of c] show ?thesis
  proof
    assume "c = CHR 0xDF \<and> upper_char c = ''SS''"
    then show ?thesis using sharp_s Cons by (simp add: py_upper_Cons upper_sharp_s)
  next
    assume "c \<noteq> CHR 0xDF \<and> (\<exists>u. upper_char c = [u] \<and> lower_char u = lower_char c
                                  \<and> is_word u = is_word c \<and> is_space u = is_space c)"
    then obtain u where "upper_char c = [u]" "is_word u = is_word c" by blast
    with Cons show ?thesis by (simp add: py_upper_Cons)
  qed
qed

lemma first_space_upper:
  "(case py_upper t of [] \<Rightarrow> False | c # r \<Rightarrow> if is_space c then g r else False)
   = (case t of [] \<Rightarrow> False | c # r \<Rightarrow> if is_space c then g (py_upper r) else False)"
proof (cases t)
  case Nil
  then show ?thesis by (simp add: py_upper_Nil)
next
  case (Cons c cs)
  from upper_char_cases[of c] show ?thesis
  proof
    assume "c = CHR 0xDF \<and> upper_char c = ''SS''"
    then show ?thesis using sharp_s Cons by (simp add: py_upper_Cons upper_sharp_s)
  next
    assume "c \<noteq> CHR 0xDF \<and> (\<exists>u. upper_char c = [u] \<and> lower_char u = lower_char c
                                  \<and> is_word u = is_word c \<and> is_space u = is_space c)"
    then obtain u where "upper_char c = [u]" "is_space u = is_space c" by blast
    with Cons show ?thesis by (simp add: py_upper_Cons)
  qed
qed

lemma pattern_letters:
  "\<forall>x\<in>set ''BETWEEN''. lower_char x \<noteq> CHR ''s'' \<and> lower_char x \<noteq> CHR 0xDF"
  "\<forall>x\<in>set ''date''. lower_char x \<noteq> CHR ''s'' \<and> lower_char x \<noteq> CHR 0xDF"
  "\<forall>x\<in>set ''BY''. lower_char x \<noteq> CHR ''s'' \<and> lower_char x \<noteq> CHR 0xDF"
  "\<forall>x\<in>set ''GROUP''. lower_char x \<noteq> CHR ''s'' \<and> lower_char x \<noteq> CHR 0xDF"
  "\<forall>x\<in>set ''ORDER''. lower_char x \<noteq> CHR ''s'' \<and> lower_char x \<noteq> CHR 0xDF"
  "\<forall>x\<in>set ''>=''. lower_char x \<noteq> CHR ''s'' \<and> lower_char x \<noteq> CHR 0xDF"
  "\<forall>x\<in>set ''<=''. lower_char x \<noteq> CHR ''s'' \<and> lower_char x \<noteq> CHR 0xDF"
  "\<forall>x\<in>set ''>''. lower_char x \<noteq> CHR ''s'' \<and> lower_char x \<noteq> CHR 0xDF"
  "\<forall>x\<in>set ''<''. lower_char x \<noteq> CHR ''s'' \<and> lower_char x \<noteq> CHR 0xDF"
  by code_simp+

text \<open>So each pattern matches in the upper-cased text where it matches in the text.\<close>

lemma len_pats: "length ''date'' = 4" "length ''BETWEEN'' = 7" "length ''BY'' = 2"
  by simp_all

lemma date_op_here_upper:
  assumes "\<forall>x\<in>set op. lower_char x \<noteq> CHR ''s'' \<and> lower_char x \<noteq> CHR 0xDF"
  shows "date_op_here op (py_upper t) = date_op_here op t"
proof (cases "ci_prefix ''date'' t")
  case True
  from drop_upper[OF pattern_letters(2) True]
  have "drop 4 (py_upper t) = py_upper (drop 4 t)" unfolding len_pats .
  with True show ?thesis
    unfolding date_op_here_def
    by (simp add: ci_prefix_upper[OF pattern_letters(2)] dropWhile_space_upper ci_prefix_upper[OF assms])
next
  case False
  then show ?thesis
    unfolding date_op_here_def by (simp add: ci_prefix_upper[OF pattern_letters(2)])
qed

lemma by_date_here_upper:
  assumes "\<forall>x\<in>set kw. lower_char x \<noteq> CHR ''s'' \<and> lower_char x \<noteq> CHR 0xDF"
  shows "by_date_here kw (py_upper t) = by_date_here kw t"
proof (cases "ci_prefix kw t")
  case False
  then show ?thesis unfolding by_date_here_def by (simp add: ci_prefix_upper[OF assms])
next
  case True
  have d1: "drop (length kw) (py_upper t) = py_upper (drop (length kw) t)"
    by (rule drop_upper[OF assms True])
  have inner: "(let r2 = dropWhile is_space (py_upper r1) in
                  if ci_prefix ''BY'' r2 then
                    (case drop 2 r2 of
                       [] \<Rightarrow> False
                     | s2 # r3 \<Rightarrow>
                         if is_space s2 then ci_prefix ''date'' (dropWhile is_space r3) else False)
                  else False)
             = (let r2 = dropWhile is_space r1 in
                  if ci_prefix ''BY'' r2 then
                    (case drop 2 r2 of
                       [] \<Rightarrow> False
                     | s2 # r3 \<Rightarrow>
                         if is_space s2 then ci_prefix ''date'' (dropWhile is_space r3) else False)
                  else False)" for r1
  proof (cases "ci_prefix ''BY'' (dropWhile is_space r1)")
    case False
    then show ?thesis
      by (simp add: Let_def dropWhile_space_upper ci_prefix_upper[OF pattern_letters(3)])
  next
    case True
    from drop_upper[OF pattern_letters(3) True]
    have d2: "drop 2 (py_upper (dropWhile is_space r1)) = py_upper (drop 2 (dropWhile is_space r1))"
      unfolding len_pats .
    show ?thesis
      using True
      by (simp add: Let_def dropWhile_space_upper ci_prefix_upper[OF pattern_letters(3)] d2
            first_space_upper[where g = "\<lambda>r3. ci_prefix ''date'' (dropWhile is_space r3)"]
            ci_prefix_upper[OF pattern_letters(2)] split: list.splits)
  qed
  show ?thesis
    unfolding by_date_here_def
    using True
    by (simp only: ci_prefix_upper[OF assms] d1 if_True
          first_space_upper[where g = "\<lambda>r1. (let r2 = dropWhile is_space r1 in
                  if ci_prefix ''BY'' r2 then
                    (case drop 2 r2 of
                       [] \<Rightarrow> False
                     | s2 # r3 \<Rightarrow>
                         if is_space s2 then ci_prefix ''date'' (dropWhile is_space r3) else False)
                  else False)"] inner)
qed

lemma between_here_upper: "between_here prev (py_upper t) = between_here prev t"
proof (cases "ci_prefix ''BETWEEN'' t")
  case False
  then show ?thesis unfolding between_here_def by (simp add: ci_prefix_upper[OF pattern_letters(1)])
next
  case True
  from drop_upper[OF pattern_letters(1) True]
  have "drop 7 (py_upper t) = py_upper (drop 7 t)" unfolding len_pats .
  then show ?thesis
    unfolding between_here_def
    by (simp add: ci_prefix_upper[OF pattern_letters(1)] first_word_upper)
qed

lemma search_any_upper:
  assumes inv: "\<And>r. here (py_upper r) = here r"
    and s: "\<And>x. \<not> here (CHR ''S'' # x)"
  shows "search_any here (py_upper t) = search_any here t"
proof (induction t)
  case Nil
  show ?case by (simp add: py_upper_Nil)
next
  case (Cons c cs)
  from upper_char_cases[of c] show ?case
  proof
    assume a: "c = CHR 0xDF \<and> upper_char c = ''SS''"
    then have "py_upper (c # cs) = CHR ''S'' # CHR ''S'' # py_upper cs"
      by (simp add: py_upper_Cons upper_sharp_s)
    moreover from this inv[of "c # cs"] s have "\<not> here (c # cs)" by simp
    ultimately show ?thesis using s Cons by simp
  next
    assume "c \<noteq> CHR 0xDF \<and> (\<exists>u. upper_char c = [u] \<and> lower_char u = lower_char c
                                  \<and> is_word u = is_word c \<and> is_space u = is_space c)"
    then obtain u where "upper_char c = [u]" by blast
    then have p: "py_upper (c # cs) = u # py_upper cs" by (simp add: py_upper_Cons)
    from inv[of "c # cs"] p have "here (u # py_upper cs) = here (c # cs)" by simp
    with Cons p show ?thesis by simp
  qed
qed

lemma between_here_prev:
  assumes "(case prev of None \<Rightarrow> True | Some p \<Rightarrow> \<not> is_word p)
         = (case prev' of None \<Rightarrow> True | Some p \<Rightarrow> \<not> is_word p)"
  shows "between_here prev t = between_here prev' t"
  unfolding between_here_def using assms by simp

lemma not_between_S: "\<not> between_here prev (CHR ''S'' # x)" "\<not> between_here prev (CHR 0xDF # x)"
proof -
  have "lower_char CHR ''B'' \<noteq> lower_char CHR ''S''" "lower_char CHR ''B'' \<noteq> lower_char (CHR 0xDF)"
    by code_simp+
  then show "\<not> between_here prev (CHR ''S'' # x)" "\<not> between_here prev (CHR 0xDF # x)"
    unfolding between_here_def by simp_all
qed

lemma search_between_upper:
  assumes "(case prev of None \<Rightarrow> True | Some p \<Rightarrow> \<not> is_word p)
         = (case prev' of None \<Rightarrow> True | Some p \<Rightarrow> \<not> is_word p)"
  shows "search_between prev (py_upper t) = search_between prev' t"
  using assms
proof (induction t arbitrary: prev prev')
  case Nil
  then show ?case by (simp add: py_upper_Nil between_here_prev[of prev prev'])
next
  case (Cons c cs)
  from upper_char_cases[of c] show ?case
  proof
    assume a: "c = CHR 0xDF \<and> upper_char c = ''SS''"
    then have p: "py_upper (c # cs) = CHR ''S'' # CHR ''S'' # py_upper cs"
      by (simp add: py_upper_Cons upper_sharp_s)
    have "search_between (Some CHR ''S'') (py_upper cs) = search_between (Some c) cs"
      by (rule Cons.IH) (use a sharp_s in simp)
    then show ?thesis using p a not_between_S by simp
  next
    assume "c \<noteq> CHR 0xDF \<and> (\<exists>u. upper_char c = [u] \<and> lower_char u = lower_char c
                                  \<and> is_word u = is_word c \<and> is_space u = is_space c)"
    then obtain u where u: "upper_char c = [u]" and w: "is_word u = is_word c" by blast
    then have p: "py_upper (c # cs) = u # py_upper cs" by (simp add: py_upper_Cons)
    have i: "search_between (Some u) (py_upper cs) = search_between (Some c) cs"
      by (rule Cons.IH) (use w in simp)
    have "between_here prev (u # py_upper cs) = between_here prev' (c # cs)"
      using between_here_upper[of prev "c # cs"] p between_here_prev[OF Cons.prems] by simp
    with i p show ?thesis by simp
  qed
qed

lemma not_date_S: "\<not> date_op_here op (CHR ''S'' # x)" "\<not> by_date_here ''GROUP'' (CHR ''S'' # x)"
  "\<not> by_date_here ''ORDER'' (CHR ''S'' # x)"
proof -
  have "lower_char CHR ''d'' \<noteq> lower_char CHR ''S''" "lower_char CHR ''G'' \<noteq> lower_char CHR ''S''"
    "lower_char CHR ''O'' \<noteq> lower_char CHR ''S''"
    by code_simp+
  then show "\<not> date_op_here op (CHR ''S'' # x)" "\<not> by_date_here ''GROUP'' (CHR ''S'' # x)"
    "\<not> by_date_here ''ORDER'' (CHR ''S'' # x)"
    unfolding date_op_here_def by_date_here_def by simp_all
qed

lemma is_date_range_query_scan:
  "is_date_range_query sql =
     (search_between None sql
      \<or> search_any (date_op_here ''>='') sql
      \<or> search_any (date_op_here ''<='') sql
      \<or> search_any (date_op_here ''>'') sql
      \<or> search_any (date_op_here ''<'') sql
      \<or> search_any (by_date_here ''GROUP'') sql
      \<or> search_any (by_date_here ''ORDER'') sql)"
  unfolding is_date_range_query_def Let_def
  by (simp only: search_between_upper[OF refl]
        search_any_upper[of "date_op_here ''>=''", OF date_op_here_upper[OF pattern_letters(6)] not_date_S(1)]
        search_any_upper[of "date_op_here ''<=''", OF date_op_here_upper[OF pattern_letters(7)] not_date_S(1)]
        search_any_upper[of "date_op_here ''>''", OF date_op_here_upper[OF pattern_letters(8)] not_date_S(1)]
        search_any_upper[of "date_op_here ''<''", OF date_op_here_upper[OF pattern_letters(9)] not_date_S(1)]
        search_any_upper[of "by_date_here ''GROUP''", OF by_date_here_upper[OF pattern_letters(4)] not_date_S(2)]
        search_any_upper[of "by_date_here ''ORDER''", OF by_date_here_upper[OF pattern_letters(5)] not_date_S(3)])

text \<open>Each scan finds what the specification describes.\<close>

lemma search_any_iff: "search_any here t \<longleftrightarrow> (\<exists>pre suf. t = pre @ suf \<and> here suf)"
proof (induction t)
  case Nil
  show ?case by simp
next
  case (Cons c cs)
  show ?case
  proof
    assume "search_any here (c # cs)"
    then have "here (c # cs) \<or> search_any here cs" by (simp split: if_splits)
    then show "\<exists>pre suf. c # cs = pre @ suf \<and> here suf"
    proof
      assume "here (c # cs)"
      then show ?thesis by (metis append_Nil)
    next
      assume "search_any here cs"
      with Cons obtain pre suf where "cs = pre @ suf" "here suf" by blast
      then have "c # cs = (c # pre) @ suf \<and> here suf" by simp
      then show ?thesis by blast
    qed
  next
    assume "\<exists>pre suf. c # cs = pre @ suf \<and> here suf"
    then obtain pre suf where d: "c # cs = pre @ suf" and h: "here suf" by blast
    show "search_any here (c # cs)"
    proof (cases pre)
      case Nil
      with d have "suf = c # cs" by simp
      with h show ?thesis by simp
    next
      case (Cons x pre')
      with d have "cs = pre' @ suf" by simp
      with h Cons.IH have "search_any here cs" by blast
      then show ?thesis by simp
    qed
  qed
qed

lemma search_between_iff:
  "search_between prev t \<longleftrightarrow>
     (\<exists>pre suf. t = pre @ suf \<and> between_here (if pre = [] then prev else Some (last pre)) suf)"
proof (induction t arbitrary: prev)
  case Nil
  show ?case by simp
next
  case (Cons c cs)
  show ?case
  proof
    assume "search_between prev (c # cs)"
    then have "between_here prev (c # cs) \<or> search_between (Some c) cs" by (simp split: if_splits)
    then show "\<exists>pre suf. c # cs = pre @ suf \<and> between_here (if pre = [] then prev else Some (last pre)) suf"
    proof
      assume "between_here prev (c # cs)"
      then have "c # cs = [] @ (c # cs) \<and> between_here (if [] = ([]::string) then prev else Some (last [])) (c # cs)"
        by simp
      then show ?thesis by blast
    next
      assume "search_between (Some c) cs"
      with Cons.IH[of "Some c"] obtain pre suf where
        d: "cs = pre @ suf" and b: "between_here (if pre = [] then Some c else Some (last pre)) suf"
        by blast
      have "c # cs = (c # pre) @ suf" using d by simp
      moreover have "between_here (if c # pre = [] then prev else Some (last (c # pre))) suf"
        using b by (cases pre) simp_all
      ultimately show ?thesis by blast
    qed
  next
    assume "\<exists>pre suf. c # cs = pre @ suf \<and> between_here (if pre = [] then prev else Some (last pre)) suf"
    then obtain pre suf where d: "c # cs = pre @ suf"
      and b: "between_here (if pre = [] then prev else Some (last pre)) suf" by blast
    show "search_between prev (c # cs)"
    proof (cases pre)
      case Nil
      with d have "suf = c # cs" by simp
      with b Nil show ?thesis by simp
    next
      case (Cons x pre')
      with d have x: "x = c" and d': "cs = pre' @ suf" by simp_all
      have "between_here (if pre' = [] then Some c else Some (last pre')) suf"
        using b Cons x by (cases pre') simp_all
      with d' Cons.IH[of "Some c"] have "search_between (Some c) cs" by blast
      then show ?thesis by simp
    qed
  qed
qed

lemma between_here_iff:
  "between_here prev suf \<longleftrightarrow>
     (case prev of None \<Rightarrow> True | Some p \<Rightarrow> \<not> is_word p)
     \<and> (\<exists>kw post. suf = kw @ post \<and> ci_eq kw ''BETWEEN'' \<and> (post = [] \<or> \<not> is_word (hd post)))"
proof -
  have "(ci_prefix ''BETWEEN'' suf \<and> (case drop 7 suf of [] \<Rightarrow> True | c # _ \<Rightarrow> \<not> is_word c))
        \<longleftrightarrow> (\<exists>kw post. suf = kw @ post \<and> ci_eq kw ''BETWEEN'' \<and> (post = [] \<or> \<not> is_word (hd post)))"
  proof
    assume a: "ci_prefix ''BETWEEN'' suf \<and> (case drop 7 suf of [] \<Rightarrow> True | c # _ \<Rightarrow> \<not> is_word c)"
    then obtain kw post where s: "suf = kw @ post" and k: "ci_eq kw ''BETWEEN''"
      using ci_prefix_iff by blast
    from k have "length kw = 7" by (auto dest: ci_eq_length)
    with s have "drop 7 suf = post" by simp
    with a have "post = [] \<or> \<not> is_word (hd post)" by (cases post) simp_all
    with s k show "\<exists>kw post. suf = kw @ post \<and> ci_eq kw ''BETWEEN'' \<and> (post = [] \<or> \<not> is_word (hd post))"
      by blast
  next
    assume "\<exists>kw post. suf = kw @ post \<and> ci_eq kw ''BETWEEN'' \<and> (post = [] \<or> \<not> is_word (hd post))"
    then obtain kw post where s: "suf = kw @ post" and k: "ci_eq kw ''BETWEEN''"
      and p: "post = [] \<or> \<not> is_word (hd post)" by blast
    from k have "length kw = 7" by (auto dest: ci_eq_length)
    with s have "drop 7 suf = post" by simp
    moreover from s k have "ci_prefix ''BETWEEN'' suf" using ci_prefix_iff by blast
    ultimately show "ci_prefix ''BETWEEN'' suf \<and> (case drop 7 suf of [] \<Rightarrow> True | c # _ \<Rightarrow> \<not> is_word c)"
      using p by (cases post) simp_all
  qed
  then show ?thesis unfolding between_here_def by auto
qed

lemma between_scan_spec: "search_between None t \<longleftrightarrow> contains_between_keyword t"
proof -
  have "(case (if pre = [] then None else Some (last pre)) of None \<Rightarrow> True | Some p \<Rightarrow> \<not> is_word p)
        = (pre = [] \<or> \<not> is_word (last pre))" for pre :: string
    by simp
  then show ?thesis
    unfolding search_between_iff between_here_iff contains_between_keyword_def by auto
qed

lemma lower_char_cases: "lower_char c = c \<or> lower_char c \<in> set lower_letters"
proof (cases "map_of (zip upper_letters lower_letters) c")
  case None
  then show ?thesis by (simp add: lower_char_def)
next
  case (Some l)
  then have "(c, l) \<in> set (zip upper_letters lower_letters)" by (rule map_of_SomeD)
  then have "l \<in> set lower_letters" by (rule set_zip_rightD)
  with Some show ?thesis by (simp add: lower_char_def)
qed

lemma operator_chars:
  "\<forall>x\<in>set ''<>=''. lower_char x = x \<and> x \<notin> set lower_letters \<and> \<not> is_space x"
  by code_simp

lemma ci_eq_operator:
  assumes "set op \<subseteq> set ''<>=''"
  shows "ci_eq x op \<longleftrightarrow> x = op"
  using assms
proof (induction op arbitrary: x)
  case Nil
  show ?case by (simp add: ci_eq_def py_lower_def)
next
  case (Cons a op)
  from Cons.prems operator_chars have a: "lower_char a = a" "a \<notin> set lower_letters" by auto
  have one: "lower_char c = a \<longleftrightarrow> c = a" for c
    using lower_char_cases[of c] a by auto
  from Cons.prems have sub: "set op \<subseteq> set ''<>=''" by simp
  have ih: "ci_eq ys op \<longleftrightarrow> ys = op" for ys
    by (rule Cons.IH[OF sub])
  show ?case
  proof (cases x)
    case Nil
    then show ?thesis by (simp add: ci_eq_def py_lower_def)
  next
    case x: (Cons c cs)
    have "ci_eq (c # cs) (a # op) \<longleftrightarrow> lower_char c = a \<and> ci_eq cs op"
      using a(1) by (simp add: ci_eq_def py_lower_def)
    then have "ci_eq (c # cs) (a # op) \<longleftrightarrow> c = a \<and> cs = op"
      unfolding one ih .
    with x show ?thesis by simp
  qed
qed

lemma dropWhile_space_append:
  assumes "all_space ws" and "y \<noteq> []" and "\<not> is_space (hd y)"
  shows "dropWhile is_space (ws @ y) = y"
proof -
  from assms(1) have "dropWhile is_space (ws @ y) = dropWhile is_space y"
    unfolding all_space_def by (simp add: dropWhile_append2)
  also from assms(2,3) have "\<dots> = y" by (cases y) simp_all
  finally show ?thesis .
qed

lemma all_space_takeWhile: "all_space (takeWhile is_space r)"
  unfolding all_space_def by (auto dest: set_takeWhileD)

lemma ci_eq_first:
  assumes "ci_eq x (a # ps)" and "\<not> is_space (lower_char a)"
  shows "x \<noteq> [] \<and> \<not> is_space (hd x)"
proof -
  from assms(1) obtain c cs where x: "x = c # cs" and l: "lower_char c = lower_char a"
    by (cases x) (auto simp: ci_eq_def py_lower_def)
  have "\<not> is_space c"
  proof
    assume "is_space c"
    then have "lower_char c = c" by (rule space_lower)
    with l \<open>is_space c\<close> assms(2) show False by simp
  qed
  with x show ?thesis by simp
qed

lemma first_letters: "\<not> is_space (lower_char CHR ''B'')" "\<not> is_space (lower_char CHR ''d'')"
  by code_simp+

lemma date_op_here_iff:
  assumes "set op \<subseteq> set ''<>=''" and "op \<noteq> []"
  shows "date_op_here op suf \<longleftrightarrow>
           (\<exists>d ws post. suf = d @ ws @ op @ post \<and> ci_eq d ''date'' \<and> all_space ws)"
proof
  assume "date_op_here op suf"
  then have p: "ci_prefix ''date'' suf" and q: "ci_prefix op (dropWhile is_space (drop 4 suf))"
    unfolding date_op_here_def by (simp_all split: if_splits)
  from p obtain d r where s: "suf = d @ r" and d: "ci_eq d ''date''" using ci_prefix_iff by blast
  from d have "length d = 4" by (auto dest: ci_eq_length)
  with s have "drop 4 suf = r" by simp
  with q obtain op2 post where o: "dropWhile is_space r = op2 @ post" and "ci_eq op2 op"
    using ci_prefix_iff by blast
  with ci_eq_operator[OF assms(1)] have "op2 = op" by blast
  with o have "takeWhile is_space r @ op @ post = r"
    using takeWhile_dropWhile_id[of is_space r] by simp
  with s have "suf = d @ takeWhile is_space r @ op @ post" by simp
  with d all_space_takeWhile[of r]
  show "\<exists>d ws post. suf = d @ ws @ op @ post \<and> ci_eq d ''date'' \<and> all_space ws" by blast
next
  assume "\<exists>d ws post. suf = d @ ws @ op @ post \<and> ci_eq d ''date'' \<and> all_space ws"
  then obtain d ws post where s: "suf = d @ ws @ op @ post" and d: "ci_eq d ''date''"
    and w: "all_space ws" by blast
  from d have "length d = 4" by (auto dest: ci_eq_length)
  with s have dr: "drop 4 suf = ws @ (op @ post)" by simp
  from assms operator_chars have "\<not> is_space (hd op)" by (cases op) auto
  with assms(2) have "op @ post \<noteq> []" "\<not> is_space (hd (op @ post))" by simp_all
  from dropWhile_space_append[OF w this] dr
  have "dropWhile is_space (drop 4 suf) = op @ post" by simp
  moreover have "ci_prefix op (op @ post)" using ci_prefix_iff ci_eq_def by blast
  moreover from s d have "ci_prefix ''date'' suf" using ci_prefix_iff by blast
  ultimately show "date_op_here op suf" unfolding date_op_here_def by simp
qed

lemma by_date_here_iff:
  "by_date_here kw suf \<longleftrightarrow>
     (\<exists>k ws1 b ws2 d post.
        suf = k @ ws1 @ b @ ws2 @ d @ post
        \<and> ci_eq k kw \<and> ws1 \<noteq> [] \<and> all_space ws1
        \<and> ci_eq b ''BY'' \<and> ws2 \<noteq> [] \<and> all_space ws2 \<and> ci_eq d ''date'')"
proof
  assume a: "by_date_here kw suf"
  then have p: "ci_prefix kw suf" unfolding by_date_here_def by (simp split: if_splits)
  then obtain k r0 where s: "suf = k @ r0" and k: "ci_eq k kw" using ci_prefix_iff by blast
  from k have "length k = length kw" by (rule ci_eq_length)
  with s have d0: "drop (length kw) suf = r0" by simp
  from a p d0 obtain s1 r1 where r0: "r0 = s1 # r1" and s1: "is_space s1"
    and by2: "ci_prefix ''BY'' (dropWhile is_space r1)"
    and rest: "(case drop 2 (dropWhile is_space r1) of [] \<Rightarrow> False
                | s2 # r3 \<Rightarrow> if is_space s2 then ci_prefix ''date'' (dropWhile is_space r3) else False)"
    unfolding by_date_here_def by (auto simp: Let_def split: if_splits list.splits)
  from by2 obtain b r2 where b: "dropWhile is_space r1 = b @ r2" and cb: "ci_eq b ''BY''"
    using ci_prefix_iff by blast
  from cb have "length b = 2" by (auto dest: ci_eq_length)
  with b have "drop 2 (dropWhile is_space r1) = r2" by simp
  with rest obtain s2 r3 where r2: "r2 = s2 # r3" and s2: "is_space s2"
    and dt: "ci_prefix ''date'' (dropWhile is_space r3)"
    by (auto split: list.splits if_splits)
  from dt obtain d post where d: "dropWhile is_space r3 = d @ post" and cd: "ci_eq d ''date''"
    using ci_prefix_iff by blast
  let ?ws1 = "s1 # takeWhile is_space r1"
  let ?ws2 = "s2 # takeWhile is_space r3"
  have e1: "takeWhile is_space r1 @ b @ r2 = r1" using takeWhile_dropWhile_id[of is_space r1] b by simp
  have e3: "takeWhile is_space r3 @ d @ post = r3" using takeWhile_dropWhile_id[of is_space r3] d by simp
  have "k @ ?ws1 @ b @ ?ws2 @ d @ post = k @ s1 # (takeWhile is_space r1 @ b @ s2 # (takeWhile is_space r3 @ d @ post))"
    by simp
  also have "\<dots> = k @ s1 # (takeWhile is_space r1 @ b @ r2)" unfolding e3 r2 ..
  also have "\<dots> = suf" unfolding e1 s r0 ..
  finally have "suf = k @ ?ws1 @ b @ ?ws2 @ d @ post" by (rule sym)
  moreover have "all_space ?ws1" "all_space ?ws2"
    using s1 s2 all_space_takeWhile[of r1] all_space_takeWhile[of r3] by (simp_all add: all_space_def)
  ultimately show "\<exists>k ws1 b ws2 d post.
        suf = k @ ws1 @ b @ ws2 @ d @ post
        \<and> ci_eq k kw \<and> ws1 \<noteq> [] \<and> all_space ws1
        \<and> ci_eq b ''BY'' \<and> ws2 \<noteq> [] \<and> all_space ws2 \<and> ci_eq d ''date''"
    using k cb cd by blast
next
  assume "\<exists>k ws1 b ws2 d post.
        suf = k @ ws1 @ b @ ws2 @ d @ post
        \<and> ci_eq k kw \<and> ws1 \<noteq> [] \<and> all_space ws1
        \<and> ci_eq b ''BY'' \<and> ws2 \<noteq> [] \<and> all_space ws2 \<and> ci_eq d ''date''"
  then obtain k ws1 b ws2 d post where s: "suf = k @ ws1 @ b @ ws2 @ d @ post"
    and k: "ci_eq k kw" and n1: "ws1 \<noteq> []" and a1: "all_space ws1"
    and cb: "ci_eq b ''BY''" and n2: "ws2 \<noteq> []" and a2: "all_space ws2" and cd: "ci_eq d ''date''"
    by blast
  from n1 obtain s1 w1 where ws1: "ws1 = s1 # w1" by (cases ws1) auto
  from n2 obtain s2 w2 where ws2: "ws2 = s2 # w2" by (cases ws2) auto
  from a1 ws1 have s1: "is_space s1" and aw1: "all_space w1" by (simp_all add: all_space_def)
  from a2 ws2 have s2: "is_space s2" and aw2: "all_space w2" by (simp_all add: all_space_def)
  from k have "length k = length kw" by (rule ci_eq_length)
  with s ws1 have d0: "drop (length kw) suf = s1 # (w1 @ b @ ws2 @ d @ post)" by simp
  from ci_eq_first[OF cb first_letters(1)] have "b @ ws2 @ d @ post \<noteq> []" "\<not> is_space (hd (b @ ws2 @ d @ post))"
    by simp_all
  from dropWhile_space_append[OF aw1 this]
  have r2: "dropWhile is_space (w1 @ b @ ws2 @ d @ post) = b @ ws2 @ d @ post" .
  from cb have "length b = 2" by (auto dest: ci_eq_length)
  then have d2: "drop 2 (b @ ws2 @ d @ post) = s2 # (w2 @ d @ post)" using ws2 by simp
  from ci_eq_first[OF cd first_letters(2)] have "d @ post \<noteq> []" "\<not> is_space (hd (d @ post))"
    by simp_all
  from dropWhile_space_append[OF aw2 this]
  have r4: "dropWhile is_space (w2 @ d @ post) = d @ post" .
  have c1: "ci_prefix kw suf" using s k ci_prefix_iff by blast
  have c2: "ci_prefix ''BY'' (b @ ws2 @ d @ post)" using cb ci_prefix_iff by blast
  have c3: "ci_prefix ''date'' (d @ post)" using cd ci_prefix_iff by blast
  show "by_date_here kw suf"
    unfolding by_date_here_def using c1 d0 s1 r2 c2 d2 s2 r4 c3 by (simp add: Let_def)
qed

lemma classifier_refines:
  "is_date_range_query sql = spec_isDateRangeQuery sql"
proof -
  have ops: "set ''>='' \<subseteq> set ''<>=''" "set ''<='' \<subseteq> set ''<>=''" "set ''>'' \<subseteq> set ''<>=''"
    "set ''<'' \<subseteq> set ''<>=''"
    by simp_all
  have d: "search_any (date_op_here op) sql = date_followed_by op sql"
    if "set op \<subseteq> set ''<>=''" "op \<noteq> []" for op
    unfolding search_any_iff date_op_here_iff[OF that] date_followed_by_def by blast
  have b: "search_any (by_date_here kw) sql = contains_by_date kw sql" for kw
    unfolding search_any_iff by_date_here_iff contains_by_date_def by blast
  show ?thesis
    unfolding is_date_range_query_scan spec_isDateRangeQuery_def between_scan_spec b
    using d[OF ops(1)] d[OF ops(2)] d[OF ops(3)] d[OF ops(4)] by simp
qed

lemma space_not_word: "\<not> is_word CHR '' ''" "is_space CHR '' ''"
  by code_simp+






section \<open>The chart stage of the orchestrator\<close>

text \<open>
  On every path the chart stage raises nothing and sends nothing but, at most, the
  file upload.
\<close>

lemma cleanup_chart_slack:
  "fst (cleanup_chart e path w) = None \<and> slack (snd (cleanup_chart e path w)) = slack w
   \<and> logs (snd (cleanup_chart e path w)) = logs w"
  by (auto simp: cleanup_chart_def os_remove_def)

lemma generate_chart_slack: "slack (snd (generate_chart e columns rows question w)) = slack w"
  by (auto simp: generate_chart_def Let_def split: option.splits sum.splits)

lemma chart_stage_isolated:
  "fst (chart_stage e columns rows question uid channel w) = None
   \<and> [ev \<leftarrow> slack (snd (chart_stage e columns rows question uid channel w)).
        (case ev of FilesUpload c p t \<Rightarrow> False | _ \<Rightarrow> True)]
     = [ev \<leftarrow> slack w. (case ev of FilesUpload c p t \<Rightarrow> False | _ \<Rightarrow> True)]"
proof (cases "generate_chart e columns rows question w")
  case (Pair r w1)
  from generate_chart_slack[of e columns rows question w] Pair have s: "slack w1 = slack w" by simp
  show ?thesis
  proof (cases r)
    case (Inl err)
    with Pair s show ?thesis by (simp add: chart_stage_def log_note_def)
  next
    case (Inr res)
    show ?thesis
    proof (cases res)
      case None
      with Pair Inr s show ?thesis by (simp add: chart_stage_def log_note_def)
    next
      case (Some path)
      with Pair Inr s show ?thesis
        by (simp add: chart_stage_def log_note_def Let_def cleanup_chart_slack split: option.splits)
    qed
  qed
qed

lemma daily_clean: "clean_sql daily_sql = daily_sql"
  by code_simp

lemma daily_select: "startswith (py_lower daily_sql) ''select''"
  by code_simp

lemma daily_is_date_range: "is_date_range_query daily_sql"
proof -
  have "daily_sql = ''SELECT date, total_revenue, note FROM t '' @ ''ORDER'' @ '' '' @ ''BY'' @ '' ''
                      @ ''date'' @ '';''"
    by (simp add: daily_sql_def)
  moreover have "ci_eq ''ORDER'' ''ORDER''" "ci_eq ''BY'' ''BY''" "ci_eq ''date'' ''date''"
    by (simp_all add: ci_eq_def)
  moreover have "all_space '' ''" "'' '' \<noteq> []" using space_not_word(2) by (simp_all add: all_space_def)
  ultimately have "contains_by_date ''ORDER'' daily_sql"
    unfolding contains_by_date_def by blast
  then show ?thesis unfolding classifier_refines spec_isDateRangeQuery_def by blast
qed

lemma daily_y_cols:
  "y_cols_of full_disk_env [''date'', ''total_revenue'', ''note''] chart_rows = [''total_revenue'']"
  by code_simp

lemma daily_question:
  "question_to_sql full_disk_env ''total revenue per day'' demo_world
     = (Inr daily_sql, demo_world\<lparr>client := True\<rparr>)"
  unfolding question_to_sql_def
  by (simp add: get_client_def full_disk_env_def demo_env_def demo_world_def daily_clean daily_select)

lemma daily_execute:
  "execute_query full_disk_env daily_sql (log_note (InfoGeneratedSql daily_sql) (demo_world\<lparr>client := True\<rparr>))
     = (Inr ([''date'', ''total_revenue'', ''note''], chart_rows, 2),
        \<lparr>client = True, pool = Some 0,
         db_log = [GetConn, Execute daily_sql, FetchAll, Rollback, PutConn],
         files = {}, slack = [], logs = [InfoGeneratedSql daily_sql]\<rparr>)"
  by (simp add: execute_query_def get_pool_def getconn_def putconn_def db_note_def log_note_def
        full_disk_env_def demo_env_def demo_world_def chart_rows_def PREVIEW_ROW_LIMIT_def
        dict_keys_def)

lemma daily_chart:
  "generate_chart full_disk_env [''date'', ''total_revenue'', ''note''] chart_rows
       ''total revenue per day'' w
     = (Inl (OSError ''No space left on device''), w\<lparr>files := insert ''/tmp/tmpq3xk.png'' (files w)\<rparr>)"
proof -
  have n: "chart_rows \<noteq> []" by (simp add: chart_rows_def)
  show ?thesis
    unfolding generate_chart_def daily_y_cols
    using n by (simp add: full_disk_env_def demo_env_def)
qed

text \<open>
  Claim C4, where chart creation fails partway. The primary result is delivered,
  \<open>savefig\<close> raises after \<open>NamedTemporaryFile\<close> made the file, the failure is only
  logged and no error is sent to the user, but the file is still there when the
  request ends: \<open>chart_path\<close> was never assigned, so \<open>cleanup_chart\<close> is not called.
\<close>

theorem artifact_left_when_savefig_raises:
  "process full_disk_env ''total revenue per day'' (Some ''U1'') (Some ''C1'') demo_world =
     (None,
      \<lparr>client = True, pool = Some 0,
       db_log = [GetConn, Execute daily_sql, FetchAll, Rollback, PutConn],
       files = {''/tmp/tmpq3xk.png''},
       slack = [RespondBlocks
                  ('':mag: *Query from <@U1>*\<newline>>total revenue per day'')
                  (''*Generated SQL:*\<newline>```'' @ daily_sql @ ''```'')
                  (''*Results:*\<newline>```''
                     @ table_text [''date'', ''total_revenue'', ''note''] chart_rows @ ''```'')],
       logs = [InfoGeneratedSql daily_sql, InfoReplied ''U1'' 2,
               WarningChartFailed (OSError ''No space left on device'')]\<rparr>)"
proof -
  have n: "chart_rows \<noteq> []" "length chart_rows = 2" by (simp_all add: chart_rows_def)
  have f: "format_slack_table [''date'', ''total_revenue'', ''note''] chart_rows 2
             = Inr (table_text [''date'', ''total_revenue'', ''note''] chart_rows)"
    using format_slack_table_closed[OF n(1), of "[''date'', ''total_revenue'', ''note'']" 2] n(2)
    by simp
  show ?thesis
    unfolding process_def daily_question
    apply (simp only: prod.case sum.case daily_execute f)
    apply (simp add: daily_is_date_range n chart_stage_def daily_chart)
    apply (simp add: log_note_def opt_str_def)
    done
qed

end
